theory Spec2Isabelle
  imports Main "HOL-Library.AList" "HOL-Library.Monad_Syntax"
begin

section \<open>The configuration store of obsctl (pkg/config/config.go)\<close>

text \<open>
  The development follows the second, current version of \<^verbatim>\<open>config.go\<close>, the one whose
  \<^verbatim>\<open>Context.OIDC\<close> is a pointer \<^verbatim>\<open>*OIDCConfig\<close> and whose \<^verbatim>\<open>OIDCConfig\<close> has an
  \<^verbatim>\<open>Expiry\<close>.

  \<^item> A Go map is an association list read through \<^const>\<open>map_of\<close>, written with
    \<^const>\<open>AList.update\<close> and shrunk with \<^const>\<open>AList.delete\<close>; a \<^verbatim>\<open>nil\<close> map is
    \<^const>\<open>None\<close>. The maps of a store are reached through the store only, so they are
    held by value.
  \<^item> A \<^verbatim>\<open>*OIDCConfig\<close> is an address into an explicit heap, \<^verbatim>\<open>nil\<close> being
    \<^const>\<open>None\<close>: \<^verbatim>\<open>GetCurrent\<close> copies a \<^verbatim>\<open>Context\<close>, and the copy holds the same
    address as the stored one.
  \<^item> A \<^verbatim>\<open>time.Time\<close> is an instant, an integer number of nanoseconds counted from Go's
    zero time.
\<close>

type_synonym APIName = string
type_synonym TenantName = string
type_synonym addr = nat

record OIDCConfig =
  AccessToken :: string
  RefreshToken :: string
  Expiry :: int
  Audience :: string
  ClientID :: string
  ClientSecret :: string
  IssuerURL :: string

record Context =
  Tenant :: string
  OIDC :: "addr option"

record API =
  URL :: string
  Contexts :: "(TenantName \<times> Context) list option"

record Config =
  APIs :: "(APIName \<times> API) list option"
  Current_API :: APIName
  Current_Tenant :: TenantName

text \<open>The zero value \<^verbatim>\<open>Config{}\<close>: no map, no selection.\<close>

definition zeroConfig :: Config where
  "zeroConfig = \<lparr>APIs = None, Current_API = '''', Current_Tenant = ''''\<rparr>"

definition zeroContext :: Context where
  "zeroContext = \<lparr>Tenant = '''', OIDC = None\<rparr>"

text \<open>\<^verbatim>\<open>v, ok := c.APIs[name]\<close> and \<^verbatim>\<open>v, ok := a.Contexts[name]\<close>: a lookup in a
  \<^verbatim>\<open>nil\<close> map finds nothing.\<close>

definition lookupAPI :: "Config \<Rightarrow> APIName \<Rightarrow> API option" where
  "lookupAPI c name = (case APIs c of None \<Rightarrow> None | Some al \<Rightarrow> map_of al name)"

definition lookupContext :: "API \<Rightarrow> TenantName \<Rightarrow> Context option" where
  "lookupContext a name = (case Contexts a of None \<Rightarrow> None | Some al \<Rightarrow> map_of al name)"

subsection \<open>Errors\<close>

text \<open>The code builds its errors with \<^verbatim>\<open>fmt.Errorf\<close>; there is one constructor for each
  message, with the names the message prints, and one for each \<^verbatim>\<open>%w\<close> wrapper.\<close>

datatype error =
    APIAlreadyExists APIName
  | APIDoesntExist APIName
  | TenantAlreadyExists TenantName APIName
  | TenantDoesntExist TenantName APIName
  | CurrentContextEmpty
  | CreatingConfigDir
  | OpeningConfigFile
  | WritingConfig
  | ParsingConfigFile
  | ConstructingProvider string
  | FetchingToken string
  | GettingCurrentContext error
  | CreatingCredentialsConfig error

text \<open>The error taxonomy of the specification, section 7, read off the messages.\<close>

datatype errkind =
  AlreadyExists | NotFound | EmptySelection | StoreIOFailure | StoreCorrupt | TokenRefreshFailed

fun kind :: "error \<Rightarrow> errkind" where
  "kind (APIAlreadyExists _) = AlreadyExists"
| "kind (TenantAlreadyExists _ _) = AlreadyExists"
| "kind (APIDoesntExist _) = NotFound"
| "kind (TenantDoesntExist _ _) = NotFound"
| "kind CurrentContextEmpty = EmptySelection"
| "kind CreatingConfigDir = StoreIOFailure"
| "kind OpeningConfigFile = StoreIOFailure"
| "kind WritingConfig = StoreIOFailure"
| "kind ParsingConfigFile = StoreCorrupt"
| "kind (ConstructingProvider _) = TokenRefreshFailed"
| "kind (FetchingToken _) = TokenRefreshFailed"
| "kind (GettingCurrentContext e) = kind e"
| "kind (CreatingCredentialsConfig e) = kind e"

subsection \<open>The persisted document\<close>

text \<open>
  The document is a JSON value. An object lists its members in the order they are written;
  \<^verbatim>\<open>JTime\<close> is the string that holds the RFC 3339 rendering of an instant.
\<close>

datatype json = JNull | JString string | JTime int | JObject "(string \<times> json) list"

text \<open>What the file holds: nothing (a missing file is created empty by \<^verbatim>\<open>Read\<close>), a JSON
  value, or bytes that are not JSON.\<close>

datatype filedata = NoContent | Document json | Malformed

text \<open>
  Modelled from the spec: \<^verbatim>\<open>json.NewEncoder(file).Encode(c)\<close> belongs to
  \<^verbatim>\<open>encoding/json\<close>, which is not part of the repository. The credential is written in
  the layout of section 6, under the member names of the \<^verbatim>\<open>json:"..."\<close> tags of
  \<^verbatim>\<open>OIDCConfig\<close>: every field is exported and none is omitted, every string is written
  as it is and the expiry as a timestamp. What the library does with a string that is not
  valid UTF-8, or with an instant whose year is outside 0 to 9999, is not modelled.
\<close>

definition encodeOIDC :: "OIDCConfig \<Rightarrow> json" where
  "encodeOIDC oc = JObject
     [(''accessToken'', JString (AccessToken oc)),
      (''refreshToken'', JString (RefreshToken oc)),
      (''expiry'', JTime (Expiry oc)),
      (''audience'', JString (Audience oc)),
      (''clientId'', JString (ClientID oc)),
      (''clientSecret'', JString (ClientSecret oc)),
      (''issuerUrl'', JString (IssuerURL oc))]"

text \<open>
  Modelled from the spec: the part of the absent \<^verbatim>\<open>encoding/json\<close> encoder that writes a
  \<^verbatim>\<open>Context\<close>, in the layout of section 6 under the tags of the struct; a \<^verbatim>\<open>nil\<close>
  credential is \<^verbatim>\<open>null\<close>, the tenant label is written as it is.
\<close>

definition encodeContext :: "(addr \<Rightarrow> OIDCConfig) \<Rightarrow> Context \<Rightarrow> json" where
  "encodeContext h x = JObject
     [(''tenant'', JString (Tenant x)),
      (''oidc'', (case OIDC x of None \<Rightarrow> JNull | Some p \<Rightarrow> encodeOIDC (h p)))]"

text \<open>
  Modelled from the spec: the part of the absent \<^verbatim>\<open>encoding/json\<close> encoder that writes an
  \<^verbatim>\<open>API\<close>, in the layout of section 6 under the tags of the struct; a \<^verbatim>\<open>nil\<close> map is
  \<^verbatim>\<open>null\<close>, a map is an object with one member for each key, the key written as it is.
\<close>

definition encodeAPI :: "(addr \<Rightarrow> OIDCConfig) \<Rightarrow> API \<Rightarrow> json" where
  "encodeAPI h a = JObject
     [(''url'', JString (URL a)),
      (''contexts'', (case Contexts a of None \<Rightarrow> JNull
          | Some al \<Rightarrow> JObject (map (\<lambda>(k, x). (k, encodeContext h x)) al)))]"

text \<open>
  Modelled from the spec: the part of the absent \<^verbatim>\<open>encoding/json\<close> encoder that writes the
  \<^verbatim>\<open>Config\<close>, in the layout of section 6 under the tags of the struct and of its
  \<^verbatim>\<open>Current\<close> field; the two names of the selection are written as they are.
\<close>

definition encodeConfig :: "(addr \<Rightarrow> OIDCConfig) \<Rightarrow> Config \<Rightarrow> json" where
  "encodeConfig h c = JObject
     [(''apis'', (case APIs c of None \<Rightarrow> JNull
          | Some al \<Rightarrow> JObject (map (\<lambda>(k, a). (k, encodeAPI h a)) al))),
      (''current'', JObject
          [(''api'', JString (Current_API c)), (''tenant'', JString (Current_Tenant c))])]"

subsection \<open>The state of a run\<close>

text \<open>The request \<^verbatim>\<open>clientcredentials.Config\<close> and the \<^verbatim>\<open>oauth2.Token\<close> that answers
  it.\<close>

record ccConfig =
  cc_ClientID :: string
  cc_ClientSecret :: string
  cc_TokenURL :: string
  cc_Scopes :: "string list"
  cc_EndpointParams :: "(string \<times> string list) list"

record Token =
  tk_AccessToken :: string
  tk_RefreshToken :: string
  tk_Expiry :: int

text \<open>The calls made to the identity provider: discovery (\<^verbatim>\<open>oidc.NewProvider\<close>) and the
  token exchange (\<^verbatim>\<open>ccc.Token\<close>).\<close>

datatype call = NewProvider string | TokenRequest ccConfig

text \<open>
  \<^verbatim>\<open>cfg\<close> is the \<^verbatim>\<open>Config\<close> the receiver \<^verbatim>\<open>c\<close> points to, \<^verbatim>\<open>heap\<close> holds the
  \<^verbatim>\<open>OIDCConfig\<close> objects, \<^verbatim>\<open>nextAddr\<close> is the next address an allocation takes,
  \<^verbatim>\<open>disk\<close> is the configuration file and \<^verbatim>\<open>calls\<close> logs the provider calls, oldest first.
\<close>

record state =
  cfg :: Config
  heap :: "addr \<Rightarrow> OIDCConfig"
  nextAddr :: addr
  disk :: filedata
  calls :: "call list"

text \<open>How the file system answers the one \<^verbatim>\<open>Save\<close> or \<^verbatim>\<open>Read\<close> of an operation:
  all is well, \<^verbatim>\<open>os.MkdirAll\<close> fails, \<^verbatim>\<open>os.OpenFile\<close> fails, or the file is opened
  (and truncated) and writing it fails, leaving the given content behind.\<close>

datatype fsres = FsOk | MkdirErr | OpenErr | WriteErr filedata

definition Save :: "fsres \<Rightarrow> state \<Rightarrow> error option \<times> state" where
  "Save fs st =
     (case fs of
        MkdirErr \<Rightarrow> (Some CreatingConfigDir, st)
      | OpenErr \<Rightarrow> (Some OpeningConfigFile, st)
      | WriteErr f \<Rightarrow> (Some WritingConfig, st\<lparr>disk := f\<rparr>)
      | FsOk \<Rightarrow> (None, st\<lparr>disk := Document (encodeConfig (heap st) (cfg st))\<rparr>))"

subsection \<open>The context graph\<close>

definition AddAPI :: "fsres \<Rightarrow> APIName \<Rightarrow> string \<Rightarrow> state \<Rightarrow> error option \<times> state" where
  "AddAPI fs name url st =
     (let c = cfg st;
          apis = (case APIs c of None \<Rightarrow> [] | Some al \<Rightarrow> al);
          c1 = c\<lparr>APIs := Some apis\<rparr>
      in if map_of apis name \<noteq> None
         then (Some (APIAlreadyExists name), st\<lparr>cfg := c1\<rparr>)
         else Save fs
           (st\<lparr>cfg := c1\<lparr>APIs := Some (AList.update name \<lparr>URL = url, Contexts = None\<rparr> apis)\<rparr>\<rparr>))"

definition RemoveAPI :: "fsres \<Rightarrow> APIName \<Rightarrow> state \<Rightarrow> error option \<times> state" where
  "RemoveAPI fs name st =
     (let c = cfg st in
      case APIs c of
        None \<Rightarrow> (Some (APIDoesntExist name), st)
      | Some al \<Rightarrow>
          (case map_of al name of
             None \<Rightarrow> (Some (APIDoesntExist name), st)
           | Some a \<Rightarrow> Save fs (st\<lparr>cfg := c\<lparr>APIs := Some (AList.delete name al)\<rparr>\<rparr>)))"

definition AddTenant ::
  "fsres \<Rightarrow> TenantName \<Rightarrow> APIName \<Rightarrow> string \<Rightarrow> addr option \<Rightarrow> state \<Rightarrow> error option \<times> state" where
  "AddTenant fs name api tenant oidcCfg st =
     (let c = cfg st in
      case APIs c of
        None \<Rightarrow> (Some (APIDoesntExist api), st)
      | Some al \<Rightarrow>
          (case map_of al api of
             None \<Rightarrow> (Some (APIDoesntExist api), st)
           | Some a \<Rightarrow>
               (let ctxs = (case Contexts a of None \<Rightarrow> [] | Some xs \<Rightarrow> xs);
                    al1 = (if Contexts a = None
                           then AList.update api (a\<lparr>Contexts := Some ctxs\<rparr>) al else al)
                in if map_of ctxs name \<noteq> None
                   then (Some (TenantAlreadyExists name api), st\<lparr>cfg := c\<lparr>APIs := Some al1\<rparr>\<rparr>)
                   else
                     (let ctxs2 = AList.update name \<lparr>Tenant = tenant, OIDC = oidcCfg\<rparr> ctxs;
                          c2 = c\<lparr>APIs := Some (AList.update api (a\<lparr>Contexts := Some ctxs2\<rparr>) al1)\<rparr>;
                          c3 = (if Current_API c2 = '''' \<and> Current_Tenant c2 = ''''
                                then c2\<lparr>Current_API := api, Current_Tenant := name\<rparr> else c2)
                      in Save fs (st\<lparr>cfg := c3\<rparr>)))))"

definition RemoveTenant :: "fsres \<Rightarrow> TenantName \<Rightarrow> APIName \<Rightarrow> state \<Rightarrow> error option \<times> state" where
  "RemoveTenant fs name api st =
     (let c = cfg st in
      case APIs c of
        None \<Rightarrow> (Some (APIDoesntExist api), st)
      | Some al \<Rightarrow>
          (case map_of al api of
             None \<Rightarrow> (Some (APIDoesntExist api), st)
           | Some a \<Rightarrow>
               (case Contexts a of
                  None \<Rightarrow> (Some (TenantDoesntExist name api), st)
                | Some ctxs \<Rightarrow>
                    (case map_of ctxs name of
                       None \<Rightarrow> (Some (TenantDoesntExist name api), st)
                     | Some x \<Rightarrow>
                         Save fs (st\<lparr>cfg := c\<lparr>APIs :=
                           Some (AList.update api (a\<lparr>Contexts := Some (AList.delete name ctxs)\<rparr>) al)\<rparr>\<rparr>)))))"

definition SetCurrent :: "fsres \<Rightarrow> APIName \<Rightarrow> TenantName \<Rightarrow> state \<Rightarrow> error option \<times> state" where
  "SetCurrent fs api tenant st =
     (let c = cfg st in
      case lookupAPI c api of
        None \<Rightarrow> (Some (APIDoesntExist api), st)
      | Some a \<Rightarrow>
          (case lookupContext a tenant of
             None \<Rightarrow> (Some (TenantDoesntExist tenant api), st)
           | Some x \<Rightarrow> Save fs (st\<lparr>cfg := c\<lparr>Current_API := api, Current_Tenant := tenant\<rparr>\<rparr>)))"

text \<open>\<^verbatim>\<open>GetCurrent\<close> returns \<^verbatim>\<open>(Context{}, err)\<close> on its three error paths; the zero
  \<^verbatim>\<open>Context\<close> that accompanies a non-nil error carries nothing, so the result is a sum.\<close>

definition GetCurrent :: "Config \<Rightarrow> error + Context" where
  "GetCurrent c =
     (if Current_API c = '''' \<or> Current_Tenant c = '''' then Inl CurrentContextEmpty
      else case lookupAPI c (Current_API c) of
        None \<Rightarrow> Inl (APIDoesntExist (Current_API c))
      | Some a \<Rightarrow>
          (case lookupContext a (Current_Tenant c) of
             None \<Rightarrow> Inl (TenantDoesntExist (Current_Tenant c) (Current_API c))
           | Some x \<Rightarrow> Inr x))"

subsection \<open>The token lifecycle\<close>

text \<open>
  What an operation is run against: the answer of the file system to its \<^verbatim>\<open>Save\<close>, the
  clock, the safety margin of the validity policy, and the identity provider, whose answers
  may depend on every call made to it so far.
\<close>

record env =
  fsAnswer :: fsres
  now :: int
  expiryDelta :: int
  newProvider :: "call list \<Rightarrow> string \<Rightarrow> string + string"
  tokenEndpoint :: "call list \<Rightarrow> ccConfig \<Rightarrow> string + Token"

text \<open>A call either returns or panics (a \<^verbatim>\<open>nil\<close> pointer dereference, an assignment to
  an entry of a \<^verbatim>\<open>nil\<close> map).\<close>

datatype 'a outcome = Returns 'a | Panics

text \<open>
  Modelled from the spec: \<^verbatim>\<open>tkn.Valid()\<close> is a method of \<^verbatim>\<open>golang.org/x/oauth2\<close>, a
  library that is not part of the repository. Section 4.3: a token is valid if it is
  non-empty and its expiry is strictly in the future, with a small implicit safety margin
  before expiry. The clock and the margin are parameters.
\<close>

definition Valid :: "int \<Rightarrow> int \<Rightarrow> Token \<Rightarrow> bool" where
  "Valid nw margin t \<longleftrightarrow> tk_AccessToken t \<noteq> '''' \<and> nw + margin < tk_Expiry t"

definition second :: int where
  "second = 1000000000"

definition hour :: int where
  "hour = 3600 * second"

text \<open>\<^verbatim>\<open>OIDCConfig.clientCredentialsConfig\<close> has a value receiver: it works on a copy
  \<^verbatim>\<open>oc\<close> of the credential. Discovery is logged whether it succeeds or not.\<close>

definition clientCredentialsConfig ::
  "env \<Rightarrow> OIDCConfig \<Rightarrow> state \<Rightarrow> (error + ccConfig) \<times> state" where
  "clientCredentialsConfig ev oc st =
     (let st1 = st\<lparr>calls := calls st @ [NewProvider (IssuerURL oc)]\<rparr> in
      case newProvider ev (calls st) (IssuerURL oc) of
        Inl e \<Rightarrow> (Inl (ConstructingProvider e), st1)
      | Inr tokenURL \<Rightarrow>
          (Inr \<lparr>cc_ClientID = ClientID oc,
                cc_ClientSecret = ClientSecret oc,
                cc_TokenURL = tokenURL,
                cc_Scopes = [''openid'', ''offline_access''],
                cc_EndpointParams =
                  (if Audience oc \<noteq> '''' then [(''audience'', [Audience oc])] else [])\<rparr>,
           st1))"

text \<open>\<^verbatim>\<open>ccc.Token(ctx)\<close>, the client-credentials exchange.\<close>

definition ccc_Token :: "env \<Rightarrow> ccConfig \<Rightarrow> state \<Rightarrow> (string + Token) \<times> state" where
  "ccc_Token ev ccc st =
     (tokenEndpoint ev (calls st) ccc, st\<lparr>calls := calls st @ [TokenRequest ccc]\<rparr>)"

text \<open>Lines 437 to 439, \<^verbatim>\<open>cctx.OIDC.AccessToken = tkn.AccessToken\<close> and the two lines after
  it: three writes through the pointer that the copy \<^verbatim>\<open>cctx\<close> holds. \<^const>\<open>None\<close> is the
  panic on a \<^verbatim>\<open>nil\<close> pointer.\<close>

definition assignToken :: "Context \<Rightarrow> Token \<Rightarrow> state \<Rightarrow> state option" where
  "assignToken cctx tkn st =
     (case OIDC cctx of
        None \<Rightarrow> None
      | Some p \<Rightarrow>
          Some (st\<lparr>heap := (heap st)(p := (heap st p)\<lparr>AccessToken := tk_AccessToken tkn,
                                                     RefreshToken := tk_RefreshToken tkn,
                                                     Expiry := tk_Expiry tkn\<rparr>)\<rparr>))"

text \<open>Line 441, \<^verbatim>\<open>c.APIs[c.Current.API].Contexts[c.Current.Tenant] = cctx\<close>. Reading a
  missing API gives the zero \<^verbatim>\<open>API\<close>, whose map is \<^verbatim>\<open>nil\<close>; assigning into a
  \<^verbatim>\<open>nil\<close> map panics (\<^const>\<open>None\<close>).\<close>

definition storeCurrent :: "Context \<Rightarrow> Config \<Rightarrow> Config option" where
  "storeCurrent cctx c =
     (case APIs c of
        None \<Rightarrow> None
      | Some al \<Rightarrow>
          (case map_of al (Current_API c) of
             None \<Rightarrow> None
           | Some a \<Rightarrow>
               (case Contexts a of
                  None \<Rightarrow> None
                | Some ctxs \<Rightarrow>
                    Some (c\<lparr>APIs := Some (AList.update (Current_API c)
                      (a\<lparr>Contexts := Some (AList.update (Current_Tenant c) cctx ctxs)\<rparr>) al)\<rparr>))))"

definition updateOIDCToken :: "env \<Rightarrow> state \<Rightarrow> error option outcome \<times> state" where
  "updateOIDCToken ev st =
     (case GetCurrent (cfg st) of
        Inl e \<Rightarrow> (Returns (Some (GettingCurrentContext e)), st)
      | Inr cctx \<Rightarrow>
          (case OIDC cctx of
             None \<Rightarrow> (Panics, st)
           | Some p \<Rightarrow>
               (let tkn = \<lparr>tk_AccessToken = AccessToken (heap st p),
                           tk_RefreshToken = RefreshToken (heap st p),
                           tk_Expiry = Expiry (heap st p)\<rparr>
                in if Valid (now ev) (expiryDelta ev) tkn then (Returns None, st)
                   else
                     (case clientCredentialsConfig ev (heap st p) st of
                        (Inl e, st1) \<Rightarrow> (Returns (Some (CreatingCredentialsConfig e)), st1)
                      | (Inr ccc, st1) \<Rightarrow>
                          (case ccc_Token ev ccc st1 of
                             (Inl e, st2) \<Rightarrow> (Returns (Some (FetchingToken e)), st2)
                           | (Inr tkn2, st2) \<Rightarrow>
                               (case assignToken cctx tkn2 st2 of
                                  None \<Rightarrow> (Panics, st2)
                                | Some st3 \<Rightarrow>
                                    (case storeCurrent cctx (cfg st3) of
                                       None \<Rightarrow> (Panics, st3)
                                     | Some c4 \<Rightarrow>
                                         (case Save (fsAnswer ev) (st3\<lparr>cfg := c4\<rparr>) of
                                            (r, st5) \<Rightarrow> (Returns r, st5)))))))))"

subsection \<open>The client factory\<close>

text \<open>\<^verbatim>\<open>http.DefaultClient\<close>, or the client \<^verbatim>\<open>oauth2.NewClient\<close> builds over the token
  source of a request configuration; building it fetches nothing.\<close>

datatype client = DefaultClient | OAuth2Client ccConfig

definition Client :: "env \<Rightarrow> state \<Rightarrow> (error + client) outcome \<times> state" where
  "Client ev st =
     (case GetCurrent (cfg st) of
        Inl e \<Rightarrow> (Returns (Inl (GettingCurrentContext e)), st)
      | Inr cctx \<Rightarrow>
          (case OIDC cctx of
             None \<Rightarrow> (Returns (Inr DefaultClient), st)
           | Some p \<Rightarrow>
               (case updateOIDCToken ev st of
                  (Panics, st1) \<Rightarrow> (Panics, st1)
                | (Returns (Some e), st1) \<Rightarrow> (Returns (Inl e), st1)
                | (Returns None, st1) \<Rightarrow>
                    (case clientCredentialsConfig ev (heap st1 p) st1 of
                       (Inl e, st2) \<Rightarrow> (Returns (Inl (CreatingCredentialsConfig e)), st2)
                     | (Inr ccc, st2) \<Rightarrow> (Returns (Inr (OAuth2Client ccc)), st2)))))"

subsection \<open>Reading the document back\<close>

text \<open>
  Modelled from the spec: \<^verbatim>\<open>json.NewDecoder(file).Decode(&cfg)\<close> belongs to
  \<^verbatim>\<open>encoding/json\<close>, which is not part of the repository; the decoder below is written
  from the document layout of section 6 and the \<^verbatim>\<open>json:"..."\<close> tags of the structs. A key
  that is absent or \<^verbatim>\<open>null\<close> leaves the zero value, a key given twice keeps its last
  value, unknown keys are skipped, a value of the wrong JSON type is an error
  (\<^const>\<open>None\<close>), and each \<^verbatim>\<open>"oidc"\<close> object is decoded into a freshly allocated
  \<^verbatim>\<open>OIDCConfig\<close>. Keys are matched exactly, and a timestamp is expected only where the
  structs have a \<^verbatim>\<open>time.Time\<close>.
\<close>

definition field :: "(string \<times> json) list \<Rightarrow> string \<Rightarrow> json option" where
  "field obj k = map_of (rev obj) k"

fun decodeString :: "json option \<Rightarrow> string option" where
  "decodeString None = Some ''''"
| "decodeString (Some JNull) = Some ''''"
| "decodeString (Some (JString s)) = Some s"
| "decodeString (Some (JTime t)) = None"
| "decodeString (Some (JObject obj)) = None"

fun decodeTime :: "json option \<Rightarrow> int option" where
  "decodeTime None = Some 0"
| "decodeTime (Some JNull) = Some 0"
| "decodeTime (Some (JTime t)) = Some t"
| "decodeTime (Some (JString s)) = None"
| "decodeTime (Some (JObject obj)) = None"

definition decodeOIDC :: "(string \<times> json) list \<Rightarrow> OIDCConfig option" where
  "decodeOIDC obj =
     do {
       a \<leftarrow> decodeString (field obj ''accessToken'');
       r \<leftarrow> decodeString (field obj ''refreshToken'');
       e \<leftarrow> decodeTime (field obj ''expiry'');
       au \<leftarrow> decodeString (field obj ''audience'');
       ci \<leftarrow> decodeString (field obj ''clientId'');
       cs \<leftarrow> decodeString (field obj ''clientSecret'');
       iu \<leftarrow> decodeString (field obj ''issuerUrl'');
       Some \<lparr>AccessToken = a, RefreshToken = r, Expiry = e, Audience = au,
             ClientID = ci, ClientSecret = cs, IssuerURL = iu\<rparr>
     }"

text \<open>The memory a decoder allocates in: the heap and the next free address.\<close>

type_synonym mem = "(addr \<Rightarrow> OIDCConfig) \<times> addr"

fun decodePointer :: "json option \<Rightarrow> mem \<Rightarrow> (addr option \<times> mem) option" where
  "decodePointer None m = Some (None, m)"
| "decodePointer (Some JNull) m = Some (None, m)"
| "decodePointer (Some (JObject obj)) m =
     (case decodeOIDC obj of
        None \<Rightarrow> None
      | Some oc \<Rightarrow> Some (Some (snd m), ((fst m)(snd m := oc), Suc (snd m))))"
| "decodePointer (Some (JString s)) m = None"
| "decodePointer (Some (JTime t)) m = None"

fun decodeContext :: "json \<Rightarrow> mem \<Rightarrow> (Context \<times> mem) option" where
  "decodeContext JNull m = Some (zeroContext, m)"
| "decodeContext (JObject obj) m =
     (case decodeString (field obj ''tenant'') of
        None \<Rightarrow> None
      | Some t \<Rightarrow>
          (case decodePointer (field obj ''oidc'') m of
             None \<Rightarrow> None
           | Some (p, m1) \<Rightarrow> Some (\<lparr>Tenant = t, OIDC = p\<rparr>, m1)))"
| "decodeContext (JString s) m = None"
| "decodeContext (JTime t) m = None"

text \<open>The members of a JSON object decoded into a Go map, one after the other: each value
  is decoded into a new element, which is then stored under its key.\<close>

fun decodeEntries ::
  "(json \<Rightarrow> mem \<Rightarrow> ('v \<times> mem) option) \<Rightarrow> (string \<times> json) list \<Rightarrow> (string \<times> 'v) list \<Rightarrow> mem
     \<Rightarrow> ((string \<times> 'v) list \<times> mem) option" where
  "decodeEntries dec [] acc m = Some (acc, m)"
| "decodeEntries dec ((k, j) # js) acc m =
     (case dec j m of
        None \<Rightarrow> None
      | Some (v, m1) \<Rightarrow> decodeEntries dec js (AList.update k v acc) m1)"

fun decodeMap ::
  "(json \<Rightarrow> mem \<Rightarrow> ('v \<times> mem) option) \<Rightarrow> json option \<Rightarrow> mem
     \<Rightarrow> ((string \<times> 'v) list option \<times> mem) option" where
  "decodeMap dec None m = Some (None, m)"
| "decodeMap dec (Some JNull) m = Some (None, m)"
| "decodeMap dec (Some (JObject es)) m =
     (case decodeEntries dec es [] m of
        None \<Rightarrow> None
      | Some (al, m1) \<Rightarrow> Some (Some al, m1))"
| "decodeMap dec (Some (JString s)) m = None"
| "decodeMap dec (Some (JTime t)) m = None"

fun decodeAPI :: "json \<Rightarrow> mem \<Rightarrow> (API \<times> mem) option" where
  "decodeAPI JNull m = Some (\<lparr>URL = '''', Contexts = None\<rparr>, m)"
| "decodeAPI (JObject obj) m =
     (case decodeString (field obj ''url'') of
        None \<Rightarrow> None
      | Some u \<Rightarrow>
          (case decodeMap decodeContext (field obj ''contexts'') m of
             None \<Rightarrow> None
           | Some (xs, m1) \<Rightarrow> Some (\<lparr>URL = u, Contexts = xs\<rparr>, m1)))"
| "decodeAPI (JString s) m = None"
| "decodeAPI (JTime t) m = None"

fun decodeCurrent :: "json option \<Rightarrow> (APIName \<times> TenantName) option" where
  "decodeCurrent None = Some ('''', '''')"
| "decodeCurrent (Some JNull) = Some ('''', '''')"
| "decodeCurrent (Some (JObject obj)) =
     (case decodeString (field obj ''api'') of
        None \<Rightarrow> None
      | Some a \<Rightarrow>
          (case decodeString (field obj ''tenant'') of
             None \<Rightarrow> None
           | Some t \<Rightarrow> Some (a, t)))"
| "decodeCurrent (Some (JString s)) = None"
| "decodeCurrent (Some (JTime t)) = None"

fun decodeConfig :: "json \<Rightarrow> mem \<Rightarrow> (Config \<times> mem) option" where
  "decodeConfig JNull m = Some (zeroConfig, m)"
| "decodeConfig (JObject obj) m =
     (case decodeMap decodeAPI (field obj ''apis'') m of
        None \<Rightarrow> None
      | Some (al, m1) \<Rightarrow>
          (case decodeCurrent (field obj ''current'') of
             None \<Rightarrow> None
           | Some (a, t) \<Rightarrow> Some (\<lparr>APIs = al, Current_API = a, Current_Tenant = t\<rparr>, m1)))"
| "decodeConfig (JString s) m = None"
| "decodeConfig (JTime t) m = None"

text \<open>\<^verbatim>\<open>Read\<close>: an empty file ends the decoder with \<^verbatim>\<open>io.EOF\<close>, which is let through
  and leaves the zero \<^verbatim>\<open>Config\<close>. \<^verbatim>\<open>Read\<close> writes nothing, so the only answers of the
  file system that matter to it are the failures of \<^verbatim>\<open>os.MkdirAll\<close> and
  \<^verbatim>\<open>os.OpenFile\<close>. The \<^verbatim>\<open>Config\<close> returned is a new one; the caller makes it its
  \<^verbatim>\<open>cfg\<close>.\<close>

definition Read :: "fsres \<Rightarrow> state \<Rightarrow> (error + Config) \<times> state" where
  "Read fsr st =
     (if fsr = MkdirErr then (Inl CreatingConfigDir, st)
      else if fsr = OpenErr then (Inl OpeningConfigFile, st)
      else case disk st of
        NoContent \<Rightarrow> (Inr zeroConfig, st)
      | Malformed \<Rightarrow> (Inl ParsingConfigFile, st)
      | Document j \<Rightarrow>
          (case decodeConfig j (heap st, nextAddr st) of
             None \<Rightarrow> (Inl ParsingConfigFile, st)
           | Some (c, m) \<Rightarrow> (Inr c, st\<lparr>heap := fst m, nextAddr := snd m\<rparr>)))"

subsection \<open>What a store holds\<close>

text \<open>A store with every pointer followed: two stores are structurally equal when these
  agree, wherever their credentials happen to be allocated.\<close>

definition resolveContext :: "(addr \<Rightarrow> OIDCConfig) \<Rightarrow> Context \<Rightarrow> string \<times> OIDCConfig option" where
  "resolveContext h x = (Tenant x, map_option h (OIDC x))"

definition resolveAPI ::
  "(addr \<Rightarrow> OIDCConfig) \<Rightarrow> API \<Rightarrow> string \<times> (TenantName \<times> string \<times> OIDCConfig option) list option" where
  "resolveAPI h a =
     (URL a, map_option (map (\<lambda>(k, x). (k, resolveContext h x))) (Contexts a))"

definition resolveConfig ::
  "(addr \<Rightarrow> OIDCConfig) \<Rightarrow> Config
     \<Rightarrow> (APIName \<times> string \<times> (TenantName \<times> string \<times> OIDCConfig option) list option) list option
         \<times> APIName \<times> TenantName" where
  "resolveConfig h c =
     (map_option (map (\<lambda>(k, a). (k, resolveAPI h a))) (APIs c), Current_API c, Current_Tenant c)"

text \<open>The credential the selection of a store resolves to, read through the store.\<close>

definition currentCredential :: "state \<Rightarrow> OIDCConfig option" where
  "currentCredential st =
     (case GetCurrent (cfg st) of
        Inl e \<Rightarrow> None
      | Inr x \<Rightarrow> map_option (heap st) (OIDC x))"

text \<open>A Go map holds a key once.\<close>

definition wfAPI :: "API \<Rightarrow> bool" where
  "wfAPI a = (case Contexts a of None \<Rightarrow> True | Some xs \<Rightarrow> distinct (map fst xs))"

definition wfConfig :: "Config \<Rightarrow> bool" where
  "wfConfig c =
     (case APIs c of
        None \<Rightarrow> True
      | Some al \<Rightarrow> distinct (map fst al) \<and> list_all (\<lambda>(k, a). wfAPI a) al)"

text \<open>Every credential a context, or an API, points to was allocated before address \<open>n\<close>.\<close>

definition belowContext :: "addr \<Rightarrow> Context \<Rightarrow> bool" where
  "belowContext n x = (case OIDC x of None \<Rightarrow> True | Some q \<Rightarrow> q < n)"

definition belowAPI :: "addr \<Rightarrow> API \<Rightarrow> bool" where
  "belowAPI n a =
     (case Contexts a of None \<Rightarrow> True | Some xs \<Rightarrow> list_all (\<lambda>(k, x). belowContext n x) xs)"

text \<open>The credential under the selection, read off a store with every pointer followed.\<close>

definition resolvedCurrent ::
  "(APIName \<times> string \<times> (TenantName \<times> string \<times> OIDCConfig option) list option) list option
     \<times> APIName \<times> TenantName \<Rightarrow> OIDCConfig option" where
  "resolvedCurrent r =
     (case r of (apis, ca, ct) \<Rightarrow>
        if ca = '''' \<or> ct = '''' then None
        else case apis of
          None \<Rightarrow> None
        | Some al \<Rightarrow>
            (case map_of al ca of
               None \<Rightarrow> None
             | Some (u, ctxs) \<Rightarrow>
                 (case ctxs of
                    None \<Rightarrow> None
                  | Some xs \<Rightarrow>
                      (case map_of xs ct of
                         None \<Rightarrow> None
                       | Some (label, cred) \<Rightarrow> cred))))"

text \<open>The invariant of the selection, section 3: both fields empty, or both set and
  resolving to an API and a context in it.\<close>

definition selectionOK :: "Config \<Rightarrow> bool" where
  "selectionOK c \<longleftrightarrow>
     (Current_API c = '''' \<and> Current_Tenant c = '''') \<or>
     (Current_API c \<noteq> '''' \<and> Current_Tenant c \<noteq> '''' \<and>
      (case lookupAPI c (Current_API c) of
         None \<Rightarrow> False
       | Some a \<Rightarrow> lookupContext a (Current_Tenant c) \<noteq> None))"

subsection \<open>Example stores\<close>

text \<open>A process that has just started on a machine with no configuration file, and the
  stores it reaches by adding an API, then an anonymous tenant, or a tenant with a
  credential the way \<^verbatim>\<open>runLogin\<close> does (a fresh \<^verbatim>\<open>&config.OIDCConfig{...}\<close>).\<close>

definition zeroOIDC :: OIDCConfig where
  "zeroOIDC = \<lparr>AccessToken = '''', RefreshToken = '''', Expiry = 0, Audience = '''',
               ClientID = '''', ClientSecret = '''', IssuerURL = ''''\<rparr>"

definition freshState :: state where
  "freshState = \<lparr>cfg = zeroConfig, heap = (\<lambda>p. zeroOIDC), nextAddr = 0, disk = NoContent, calls = []\<rparr>"

definition stateA :: state where
  "stateA = snd (AddAPI FsOk ''a'' ''https://a.example'' freshState)"

definition stateAT :: state where
  "stateAT = snd (AddTenant FsOk ''t'' ''a'' ''T'' None stateA)"

definition loginCredential :: OIDCConfig where
  "loginCredential = \<lparr>AccessToken = ''access0'', RefreshToken = ''refresh0'',
                       Expiry = 100 * second + hour, Audience = ''aud'',
                       ClientID = ''id'', ClientSecret = ''secret'',
                       IssuerURL = ''https://issuer.example''\<rparr>"

definition stateLogin :: state where
  "stateLogin =
     snd (AddTenant FsOk ''t'' ''a'' ''t'' (Some 0)
            (stateA\<lparr>heap := (heap stateA)(0 := loginCredential), nextAddr := 1\<rparr>))"

text \<open>The store \<^verbatim>\<open>stateAT\<close> grown to two APIs: \<open>a\<close> with the tenants \<open>t\<close> (selected)
  and \<open>t2\<close>, and \<open>b\<close> with the tenant \<open>u\<close>.\<close>

definition stateTwo :: state where
  "stateTwo =
     snd (AddTenant FsOk ''u'' ''b'' ''U'' None
       (snd (AddTenant FsOk ''t2'' ''a'' ''T2'' None
         (snd (AddAPI FsOk ''b'' ''https://b.example'' stateAT)))))"

text \<open>The store \<^verbatim>\<open>stateAT\<close> with a second tenant under \<open>a\<close> whose key is the empty
  string.\<close>

definition stateEmptyKey :: state where
  "stateEmptyKey = snd (AddTenant FsOk '''' ''a'' '''' None stateAT)"

text \<open>A token the provider may hand out, and an environment: the clock stands at 100
  seconds, the margin is 10 seconds, the file system works, discovery answers with a token
  endpoint and the exchange with that token.\<close>

definition freshToken :: Token where
  "freshToken = \<lparr>tk_AccessToken = ''access1'', tk_RefreshToken = ''refresh1'',
                  tk_Expiry = 100 * second + 2 * hour\<rparr>"

definition providerUp :: env where
  "providerUp = \<lparr>fsAnswer = FsOk, now = 100 * second, expiryDelta = 10 * second,
                  newProvider = (\<lambda>cs issuer. Inr (issuer @ ''/token'')),
                  tokenEndpoint = (\<lambda>cs ccc. Inr freshToken)\<rparr>"

text \<open>The same store an hour and a half later, when the token of the login has expired.\<close>

definition providerUpLater :: env where
  "providerUpLater = providerUp\<lparr>now := 100 * second + hour + hour div 2\<rparr>"

section \<open>Properties\<close>

subsection \<open>Saving and the example stores\<close>

lemma Save_cfg [simp]: "cfg (snd (Save fs st)) = cfg st"
  by (cases fs) (simp_all add: Save_def)

lemma Save_heap [simp]: "heap (snd (Save fs st)) = heap st"
  by (cases fs) (simp_all add: Save_def)

lemma Save_calls [simp]: "calls (snd (Save fs st)) = calls st"
  by (cases fs) (simp_all add: Save_def)

lemma Save_nextAddr [simp]: "nextAddr (snd (Save fs st)) = nextAddr st"
  by (cases fs) (simp_all add: Save_def)

lemma Save_FsOk: "Save FsOk st = (None, st\<lparr>disk := Document (encodeConfig (heap st) (cfg st))\<rparr>)"
  by (simp add: Save_def)

lemma stateA_cfg:
  "cfg stateA = \<lparr>APIs = Some [(''a'', \<lparr>URL = ''https://a.example'', Contexts = None\<rparr>)],
                 Current_API = '''', Current_Tenant = ''''\<rparr>"
  by (simp add: stateA_def freshState_def zeroConfig_def AddAPI_def)

lemma stateAT_cfg:
  "cfg stateAT =
     \<lparr>APIs = Some [(''a'', \<lparr>URL = ''https://a.example'',
                            Contexts = Some [(''t'', \<lparr>Tenant = ''T'', OIDC = None\<rparr>)]\<rparr>)],
      Current_API = ''a'', Current_Tenant = ''t''\<rparr>"
  by (simp add: stateAT_def stateA_cfg AddTenant_def)

lemma stateLogin_cfg:
  "cfg stateLogin =
     \<lparr>APIs = Some [(''a'', \<lparr>URL = ''https://a.example'',
                            Contexts = Some [(''t'', \<lparr>Tenant = ''t'', OIDC = Some 0\<rparr>)]\<rparr>)],
      Current_API = ''a'', Current_Tenant = ''t''\<rparr>"
  by (simp add: stateLogin_def stateA_cfg AddTenant_def)

subsection \<open>Automatic selection of the first tenant\<close>

lemma AddTenant_keeps:
  assumes "\<not> (Current_API (cfg st) = '''' \<and> Current_Tenant (cfg st) = '''')"
  shows "Current_API (cfg (snd (AddTenant fs name api tenant oidcCfg st))) = Current_API (cfg st)
       \<and> Current_Tenant (cfg (snd (AddTenant fs name api tenant oidcCfg st))) = Current_Tenant (cfg st)"
  using assms by (auto simp add: AddTenant_def Let_def split: option.splits)

lemma AddTenant_selects:
  assumes "fst (AddTenant fs name api tenant oidcCfg st) = None"
      and "Current_API (cfg st) = ''''" and "Current_Tenant (cfg st) = ''''"
  shows "Current_API (cfg (snd (AddTenant fs name api tenant oidcCfg st))) = api
       \<and> Current_Tenant (cfg (snd (AddTenant fs name api tenant oidcCfg st))) = name"
  using assms by (auto simp add: AddTenant_def Let_def split: option.splits if_splits)

lemma AddTenant_scenario:
  assumes "cfg st0 = zeroConfig"
  shows "GetCurrent (cfg (snd (AddTenant fs2 ''t'' ''a'' ''T'' None (snd (AddAPI fs1 ''a'' u st0)))))
           = Inr \<lparr>Tenant = ''T'', OIDC = None\<rparr> \<and>
         GetCurrent (cfg (snd (AddTenant fs3 ''t2'' ''a'' ''T2'' None
            (snd (AddTenant fs2 ''t'' ''a'' ''T'' None (snd (AddAPI fs1 ''a'' u st0)))))))
           = Inr \<lparr>Tenant = ''T'', OIDC = None\<rparr> \<and>
         Current_API (cfg (snd (AddTenant fs3 ''t2'' ''a'' ''T2'' None
            (snd (AddTenant fs2 ''t'' ''a'' ''T'' None (snd (AddAPI fs1 ''a'' u st0))))))) = ''a'' \<and>
         Current_Tenant (cfg (snd (AddTenant fs3 ''t2'' ''a'' ''T2'' None
            (snd (AddTenant fs2 ''t'' ''a'' ''T'' None (snd (AddAPI fs1 ''a'' u st0))))))) = ''t''"
  using assms
  by (simp add: AddAPI_def AddTenant_def Let_def zeroConfig_def GetCurrent_def
      lookupAPI_def lookupContext_def)

text \<open>
  Claim C1. Whenever \<^verbatim>\<open>AddTenant(name, api, tenant, oidc)\<close> succeeds on a store whose
  selection has both fields empty, the selection becomes \<open>(api, name)\<close>; on a store whose
  selection is not both-empty (a dangling one included: the condition looks at the two
  strings only) no call to \<^verbatim>\<open>AddTenant\<close> changes it. From the zero store, whatever the
  URL and whatever the file system answers, \<^verbatim>\<open>AddAPI("a", u)\<close> then
  \<^verbatim>\<open>AddTenant("t", "a", "T", nil)\<close> make \<^verbatim>\<open>GetCurrent\<close> return the context of tenant
  \<open>t\<close> under \<open>a\<close>, and a further \<^verbatim>\<open>AddTenant("t2", "a", "T2", nil)\<close> leaves the selection
  and what it resolves to as they are.
\<close>

theorem AddTenant_auto_selection:
  assumes "AddTenant fs name api tenant oidcCfg st = (r, st')"
  shows "(r = None \<longrightarrow> Current_API (cfg st) = '''' \<and> Current_Tenant (cfg st) = '''' \<longrightarrow>
            Current_API (cfg st') = api \<and> Current_Tenant (cfg st') = name) \<and>
         (\<not> (Current_API (cfg st) = '''' \<and> Current_Tenant (cfg st) = '''') \<longrightarrow>
            Current_API (cfg st') = Current_API (cfg st) \<and>
            Current_Tenant (cfg st') = Current_Tenant (cfg st)) \<and>
         (\<forall>st0 u fs1 fs2 fs3. cfg st0 = zeroConfig \<longrightarrow>
            GetCurrent (cfg (snd (AddTenant fs2 ''t'' ''a'' ''T'' None (snd (AddAPI fs1 ''a'' u st0)))))
              = Inr \<lparr>Tenant = ''T'', OIDC = None\<rparr> \<and>
            GetCurrent (cfg (snd (AddTenant fs3 ''t2'' ''a'' ''T2'' None
               (snd (AddTenant fs2 ''t'' ''a'' ''T'' None (snd (AddAPI fs1 ''a'' u st0)))))))
              = Inr \<lparr>Tenant = ''T'', OIDC = None\<rparr> \<and>
            Current_API (cfg (snd (AddTenant fs3 ''t2'' ''a'' ''T2'' None
               (snd (AddTenant fs2 ''t'' ''a'' ''T'' None (snd (AddAPI fs1 ''a'' u st0))))))) = ''a'' \<and>
            Current_Tenant (cfg (snd (AddTenant fs3 ''t2'' ''a'' ''T2'' None
               (snd (AddTenant fs2 ''t'' ''a'' ''T'' None (snd (AddAPI fs1 ''a'' u st0))))))) = ''t'')"
proof -
  have r: "r = fst (AddTenant fs name api tenant oidcCfg st)"
    and s: "st' = snd (AddTenant fs name api tenant oidcCfg st)"
    using assms by simp_all
  show ?thesis
    unfolding r s using AddTenant_selects AddTenant_keeps AddTenant_scenario by blast
qed

theorem AddTenant_auto_selection_witness:
  "AddTenant FsOk ''t'' ''a'' ''T'' None stateA = (None, stateAT) \<and>
   Current_API (cfg stateA) = '''' \<and> Current_Tenant (cfg stateA) = '''' \<and>
   Current_API (cfg stateAT) = ''a'' \<and> Current_Tenant (cfg stateAT) = ''t'' \<and>
   fst (AddTenant FsOk ''t2'' ''a'' ''T2'' None stateAT) = None \<and>
   Current_API (cfg (snd (AddTenant FsOk ''t2'' ''a'' ''T2'' None stateAT))) = ''a'' \<and>
   Current_Tenant (cfg (snd (AddTenant FsOk ''t2'' ''a'' ''T2'' None stateAT))) = ''t''"
proof -
  have a: "AddTenant FsOk ''t'' ''a'' ''T'' None stateA = (None, stateAT)"
    by (simp add: stateAT_def stateA_cfg AddTenant_def Save_FsOk Let_def)
  have b: "fst (AddTenant FsOk ''t2'' ''a'' ''T2'' None stateAT) = None"
    by (simp add: stateAT_cfg AddTenant_def Save_FsOk Let_def)
  have c: "AddTenant FsOk ''t2'' ''a'' ''T2'' None stateAT =
     (fst (AddTenant FsOk ''t2'' ''a'' ''T2'' None stateAT),
      snd (AddTenant FsOk ''t2'' ''a'' ''T2'' None stateAT))"
    by simp
  show ?thesis
    using a b AddTenant_auto_selection [OF a] AddTenant_auto_selection [OF c]
    by (simp add: stateA_cfg stateAT_cfg)
qed

subsection \<open>Resolving the selection\<close>

lemma GetCurrent_after_RemoveTenant:
  assumes "GetCurrent (cfg st) = Inr x"
  shows "GetCurrent (cfg (snd (RemoveTenant fs (Current_Tenant (cfg st)) (Current_API (cfg st)) st)))
           = Inl (TenantDoesntExist (Current_Tenant (cfg st)) (Current_API (cfg st)))"
  using assms
  by (auto simp add: GetCurrent_def RemoveTenant_def lookupAPI_def lookupContext_def Let_def
      AList.update_conv' AList.delete_conv' split: option.splits if_splits)

lemma GetCurrent_after_RemoveAPI:
  assumes "GetCurrent (cfg st) = Inr x"
  shows "GetCurrent (cfg (snd (RemoveAPI fs (Current_API (cfg st)) st)))
           = Inl (APIDoesntExist (Current_API (cfg st)))"
  using assms
  by (auto simp add: GetCurrent_def RemoveAPI_def lookupAPI_def lookupContext_def Let_def
      AList.update_conv' AList.delete_conv' split: option.splits if_splits)

text \<open>
  Claim C2. \<^verbatim>\<open>GetCurrent\<close> fails with the empty-selection error when either field of the
  selection is the empty string; with a not-found error when the selected API is not in the
  map, or the selected tenant is not under that API; and otherwise returns the context
  stored at the selected pair. After \<^verbatim>\<open>RemoveTenant\<close> or \<^verbatim>\<open>RemoveAPI\<close> of the selected
  pair it therefore reports not-found: on the error paths the result is the error, never a
  context, stale or zero, reported as found.
\<close>

theorem GetCurrent_outcomes:
  "(Current_API c = '''' \<or> Current_Tenant c = '''' \<longrightarrow>
      GetCurrent c = Inl CurrentContextEmpty \<and> kind CurrentContextEmpty = EmptySelection) \<and>
   (Current_API c \<noteq> '''' \<and> Current_Tenant c \<noteq> '''' \<and> lookupAPI c (Current_API c) = None \<longrightarrow>
      GetCurrent c = Inl (APIDoesntExist (Current_API c)) \<and>
      kind (APIDoesntExist (Current_API c)) = NotFound) \<and>
   (\<forall>a. Current_API c \<noteq> '''' \<and> Current_Tenant c \<noteq> '''' \<and> lookupAPI c (Current_API c) = Some a \<and>
        lookupContext a (Current_Tenant c) = None \<longrightarrow>
      GetCurrent c = Inl (TenantDoesntExist (Current_Tenant c) (Current_API c)) \<and>
      kind (TenantDoesntExist (Current_Tenant c) (Current_API c)) = NotFound) \<and>
   (\<forall>a x. Current_API c \<noteq> '''' \<and> Current_Tenant c \<noteq> '''' \<and> lookupAPI c (Current_API c) = Some a \<and>
        lookupContext a (Current_Tenant c) = Some x \<longrightarrow>
      GetCurrent c = Inr x) \<and>
   (\<forall>st fs x. cfg st = c \<and> GetCurrent c = Inr x \<longrightarrow>
      GetCurrent (cfg (snd (RemoveTenant fs (Current_Tenant c) (Current_API c) st)))
        = Inl (TenantDoesntExist (Current_Tenant c) (Current_API c)) \<and>
      GetCurrent (cfg (snd (RemoveAPI fs (Current_API c) st)))
        = Inl (APIDoesntExist (Current_API c)))"
proof -
  have 1: "Current_API c = '''' \<or> Current_Tenant c = '''' \<Longrightarrow> GetCurrent c = Inl CurrentContextEmpty"
    by (simp add: GetCurrent_def)
  have 2: "Current_API c \<noteq> '''' \<and> Current_Tenant c \<noteq> '''' \<and> lookupAPI c (Current_API c) = None \<Longrightarrow>
      GetCurrent c = Inl (APIDoesntExist (Current_API c))"
    by (simp add: GetCurrent_def)
  have 3: "\<And>a. Current_API c \<noteq> '''' \<and> Current_Tenant c \<noteq> '''' \<and> lookupAPI c (Current_API c) = Some a \<and>
        lookupContext a (Current_Tenant c) = None \<Longrightarrow>
      GetCurrent c = Inl (TenantDoesntExist (Current_Tenant c) (Current_API c))"
    by (simp add: GetCurrent_def)
  have 4: "\<And>a x. Current_API c \<noteq> '''' \<and> Current_Tenant c \<noteq> '''' \<and> lookupAPI c (Current_API c) = Some a \<and>
        lookupContext a (Current_Tenant c) = Some x \<Longrightarrow> GetCurrent c = Inr x"
    by (simp add: GetCurrent_def)
  have 5: "\<And>st fs x. cfg st = c \<and> GetCurrent c = Inr x \<Longrightarrow>
      GetCurrent (cfg (snd (RemoveTenant fs (Current_Tenant c) (Current_API c) st)))
        = Inl (TenantDoesntExist (Current_Tenant c) (Current_API c)) \<and>
      GetCurrent (cfg (snd (RemoveAPI fs (Current_API c) st)))
        = Inl (APIDoesntExist (Current_API c))"
    using GetCurrent_after_RemoveTenant GetCurrent_after_RemoveAPI by blast
  show ?thesis
    using 1 2 3 4 5 by (simp del: One_nat_def) blast
qed

theorem GetCurrent_outcomes_witness:
  "GetCurrent (cfg stateA) = Inl CurrentContextEmpty \<and>
   GetCurrent (cfg stateAT) = Inr \<lparr>Tenant = ''T'', OIDC = None\<rparr> \<and>
   GetCurrent (cfg (snd (RemoveTenant FsOk ''t'' ''a'' stateAT))) = Inl (TenantDoesntExist ''t'' ''a'') \<and>
   GetCurrent (cfg (snd (RemoveAPI FsOk ''a'' stateAT))) = Inl (APIDoesntExist ''a'')"
  using GetCurrent_outcomes [of "cfg stateA"] GetCurrent_outcomes [of "cfg stateAT"]
  by (simp add: stateA_cfg stateAT_cfg lookupAPI_def lookupContext_def)

subsection \<open>Uniqueness of API names\<close>

lemma AddAPI_fresh:
  assumes "lookupAPI (cfg st) x = None"
  shows "lookupAPI (cfg (snd (AddAPI fs x u st))) x = Some \<lparr>URL = u, Contexts = None\<rparr>"
    and "fst (AddAPI FsOk x u st) = None"
  using assms
  by (auto simp add: AddAPI_def lookupAPI_def Let_def AList.update_conv' Save_FsOk
      split: option.splits)

lemma AddAPI_taken:
  assumes "lookupAPI (cfg st) x = Some a"
  shows "AddAPI fs x u2 st = (Some (APIAlreadyExists x), st)"
  using assms
  by (auto simp add: AddAPI_def lookupAPI_def Let_def split: option.splits)

text \<open>
  Claim C8. On a store where \<open>x\<close> is absent, \<^verbatim>\<open>AddAPI(x, u)\<close> succeeds (the file system
  permitting) and, whatever the file system answers, leaves under \<open>x\<close> an API with URL \<open>u\<close>
  and no context (its map is \<^verbatim>\<open>nil\<close>, in which every lookup fails). A following
  \<^verbatim>\<open>AddAPI(x, u2)\<close> fails with the already-exists error and returns the state it was
  given, memory and file alike: the URL under \<open>x\<close> is still \<open>u\<close>.
\<close>

theorem AddAPI_unique:
  assumes "lookupAPI (cfg st) x = None"
  shows "fst (AddAPI FsOk x u st) = None \<and>
         lookupAPI (cfg (snd (AddAPI fs x u st))) x = Some \<lparr>URL = u, Contexts = None\<rparr> \<and>
         (\<forall>t. lookupContext \<lparr>URL = u, Contexts = None\<rparr> t = None) \<and>
         AddAPI fs2 x u2 (snd (AddAPI fs x u st)) = (Some (APIAlreadyExists x), snd (AddAPI fs x u st)) \<and>
         kind (APIAlreadyExists x) = AlreadyExists \<and>
         map_option URL (lookupAPI (cfg (snd (AddAPI fs2 x u2 (snd (AddAPI fs x u st))))) x) = Some u"
proof -
  have a: "lookupAPI (cfg (snd (AddAPI fs x u st))) x = Some \<lparr>URL = u, Contexts = None\<rparr>"
    using assms by (rule AddAPI_fresh(1))
  have b: "AddAPI fs2 x u2 (snd (AddAPI fs x u st)) = (Some (APIAlreadyExists x), snd (AddAPI fs x u st))"
    using a by (rule AddAPI_taken)
  show ?thesis
    using a b AddAPI_fresh(2) [OF assms] by (simp add: lookupContext_def)
qed

theorem AddAPI_unique_witness:
  "lookupAPI (cfg freshState) ''x'' = None \<and>
   fst (AddAPI FsOk ''x'' ''u'' freshState) = None \<and>
   AddAPI FsOk ''x'' ''u2'' (snd (AddAPI FsOk ''x'' ''u'' freshState))
     = (Some (APIAlreadyExists ''x''), snd (AddAPI FsOk ''x'' ''u'' freshState)) \<and>
   map_option URL
     (lookupAPI (cfg (snd (AddAPI FsOk ''x'' ''u2'' (snd (AddAPI FsOk ''x'' ''u'' freshState))))) ''x'')
     = Some ''u''"
proof -
  have h: "lookupAPI (cfg freshState) ''x'' = None"
    by (simp add: freshState_def zeroConfig_def lookupAPI_def)
  show ?thesis
    using h AddAPI_unique [OF h, of "''u''" FsOk FsOk "''u2''"] by auto
qed

subsection \<open>The invariant of the selection\<close>

lemma lookupAPI_AddAPI_other:
  "lookupAPI (cfg st) k = Some a \<Longrightarrow> lookupAPI (cfg (snd (AddAPI fs name url st))) k = Some a"
  by (auto simp add: AddAPI_def lookupAPI_def Let_def AList.update_conv' split: option.splits)

lemma AddAPI_current [simp]:
  "Current_API (cfg (snd (AddAPI fs name url st))) = Current_API (cfg st)"
  "Current_Tenant (cfg (snd (AddAPI fs name url st))) = Current_Tenant (cfg st)"
  by (auto simp add: AddAPI_def Let_def)

lemma selectionOK_AddAPI:
  "selectionOK (cfg st) \<Longrightarrow> selectionOK (cfg (snd (AddAPI fs name url st)))"
  unfolding selectionOK_def
  by (auto simp add: lookupAPI_AddAPI_other split: option.splits)

lemma selectionOK_AddTenant_empty:
  "(api = '''') = (name = '''') \<Longrightarrow> selectionOK (cfg st) \<Longrightarrow>
   selectionOK (cfg (snd (AddTenant fs name api tenant oidcCfg st)))"
  unfolding selectionOK_def
  by (auto simp add: AddTenant_def lookupAPI_def lookupContext_def Let_def AList.update_conv'
      split: option.splits if_splits)

lemma selectionOK_AddTenant_set:
  assumes ok: "selectionOK (cfg st)"
    and set: "\<not> (Current_API (cfg st) = '''' \<and> Current_Tenant (cfg st) = '''')"
  shows "selectionOK (cfg (snd (AddTenant fs name api tenant oidcCfg st)))"
proof -
  have ne: "Current_API (cfg st) \<noteq> ''''" "Current_Tenant (cfg st) \<noteq> ''''"
    using ok set by (auto simp add: selectionOK_def)
  obtain a x where a: "lookupAPI (cfg st) (Current_API (cfg st)) = Some a"
    and x: "lookupContext a (Current_Tenant (cfg st)) = Some x"
    using ok set by (auto simp add: selectionOK_def split: option.splits)
  have keep: "Current_API (cfg (snd (AddTenant fs name api tenant oidcCfg st))) = Current_API (cfg st)"
      "Current_Tenant (cfg (snd (AddTenant fs name api tenant oidcCfg st))) = Current_Tenant (cfg st)"
    using AddTenant_keeps [OF set] by simp_all
  have res: "\<exists>a'. lookupAPI (cfg (snd (AddTenant fs name api tenant oidcCfg st))) (Current_API (cfg st)) = Some a' \<and>
      lookupContext a' (Current_Tenant (cfg st)) \<noteq> None"
    using a x
    by (auto simp add: AddTenant_def lookupAPI_def lookupContext_def Let_def AList.update_conv'
        split: option.splits if_splits)
  show ?thesis
    unfolding selectionOK_def keep using ne res by auto
qed

lemma selectionOK_AddTenant:
  assumes ok: "selectionOK (cfg st)"
    and h: "Current_API (cfg st) = '''' \<and> Current_Tenant (cfg st) = '''' \<longrightarrow> (api = '''') = (name = '''')"
  shows "selectionOK (cfg (snd (AddTenant fs name api tenant oidcCfg st)))"
proof (cases "Current_API (cfg st) = '''' \<and> Current_Tenant (cfg st) = ''''")
  case True
  then have "(api = '''') = (name = '''')" using h by simp
  then show ?thesis using ok by (rule selectionOK_AddTenant_empty)
next
  case False
  then show ?thesis using ok by (simp add: selectionOK_AddTenant_set)
qed

lemma selectionOK_SetCurrent:
  "selectionOK (cfg st) \<Longrightarrow> (api = '''') = (tenant = '''') \<Longrightarrow>
   selectionOK (cfg (snd (SetCurrent fs api tenant st)))"
  unfolding selectionOK_def
  by (auto simp add: SetCurrent_def lookupAPI_def lookupContext_def Let_def
      split: option.splits if_splits)

lemma selectionOK_RemoveAPI:
  "selectionOK (cfg st) \<Longrightarrow> (Current_API (cfg st) \<noteq> '''' \<longrightarrow> name \<noteq> Current_API (cfg st)) \<Longrightarrow>
   selectionOK (cfg (snd (RemoveAPI fs name st)))"
  unfolding selectionOK_def
  by (auto simp add: RemoveAPI_def lookupAPI_def lookupContext_def Let_def AList.delete_conv'
      split: option.splits if_splits)

lemma selectionOK_RemoveTenant:
  "selectionOK (cfg st) \<Longrightarrow>
   (Current_API (cfg st) \<noteq> '''' \<longrightarrow> \<not> (api = Current_API (cfg st) \<and> name = Current_Tenant (cfg st))) \<Longrightarrow>
   selectionOK (cfg (snd (RemoveTenant fs name api st)))"
  unfolding selectionOK_def
  by (auto simp add: RemoveTenant_def lookupAPI_def lookupContext_def Let_def
      AList.delete_conv' AList.update_conv' split: option.splits if_splits)

lemma stateTwo_cfg:
  "cfg stateTwo =
     \<lparr>APIs = Some [(''a'', \<lparr>URL = ''https://a.example'',
                            Contexts = Some [(''t'', \<lparr>Tenant = ''T'', OIDC = None\<rparr>),
                                             (''t2'', \<lparr>Tenant = ''T2'', OIDC = None\<rparr>)]\<rparr>),
                    (''b'', \<lparr>URL = ''https://b.example'',
                            Contexts = Some [(''u'', \<lparr>Tenant = ''U'', OIDC = None\<rparr>)]\<rparr>)],
      Current_API = ''a'', Current_Tenant = ''t''\<rparr>"
  by (simp add: stateTwo_def stateAT_cfg AddTenant_def AddAPI_def Let_def)

lemma stateEmptyKey_cfg:
  "cfg stateEmptyKey =
     \<lparr>APIs = Some [(''a'', \<lparr>URL = ''https://a.example'',
                            Contexts = Some [(''t'', \<lparr>Tenant = ''T'', OIDC = None\<rparr>),
                                             ('''', \<lparr>Tenant = '''', OIDC = None\<rparr>)]\<rparr>)],
      Current_API = ''a'', Current_Tenant = ''t''\<rparr>"
  by (simp add: stateEmptyKey_def stateAT_cfg AddTenant_def Let_def)

lemma stateTwo_ok: "selectionOK (cfg stateTwo)"
  by (simp add: stateTwo_cfg selectionOK_def lookupAPI_def lookupContext_def)

lemma stateA_ok: "selectionOK (cfg stateA)"
  by (simp add: stateA_cfg selectionOK_def)

text \<open>
  Claim C3, as stated, fails: \<^verbatim>\<open>RemoveTenant\<close> (like \<^verbatim>\<open>RemoveAPI\<close>) never looks at the
  selection. Removing the selected tenant of a store that satisfies the invariant succeeds
  and persists a selection \<open>(a, t)\<close> that resolves to nothing. Besides, \<^verbatim>\<open>AddTenant\<close> with
  the empty string as tenant key on a store with no selection persists the half-set
  selection \<open>(a, "")\<close>, and so does \<^verbatim>\<open>SetCurrent\<close> on a tenant whose key is the empty
  string.
\<close>

theorem selection_invariant_counterexample:
  "selectionOK (cfg stateAT) \<and>
   fst (RemoveTenant FsOk ''t'' ''a'' stateAT) = None \<and>
   \<not> selectionOK (cfg (snd (RemoveTenant FsOk ''t'' ''a'' stateAT))) \<and>
   disk (snd (RemoveTenant FsOk ''t'' ''a'' stateAT)) =
     Document (JObject
       [(''apis'', JObject [(''a'', JObject [(''url'', JString ''https://a.example''),
                                             (''contexts'', JObject [])])]),
        (''current'', JObject [(''api'', JString ''a''), (''tenant'', JString ''t'')])]) \<and>
   selectionOK (cfg stateA) \<and>
   fst (AddTenant FsOk '''' ''a'' '''' None stateA) = None \<and>
   Current_API (cfg (snd (AddTenant FsOk '''' ''a'' '''' None stateA))) = ''a'' \<and>
   Current_Tenant (cfg (snd (AddTenant FsOk '''' ''a'' '''' None stateA))) = '''' \<and>
   \<not> selectionOK (cfg (snd (AddTenant FsOk '''' ''a'' '''' None stateA))) \<and>
   selectionOK (cfg stateEmptyKey) \<and>
   fst (SetCurrent FsOk ''a'' '''' stateEmptyKey) = None \<and>
   Current_API (cfg (snd (SetCurrent FsOk ''a'' '''' stateEmptyKey))) = ''a'' \<and>
   Current_Tenant (cfg (snd (SetCurrent FsOk ''a'' '''' stateEmptyKey))) = '''' \<and>
   \<not> selectionOK (cfg (snd (SetCurrent FsOk ''a'' '''' stateEmptyKey)))"
  by (simp add: stateAT_cfg stateA_cfg stateEmptyKey_cfg selectionOK_def RemoveTenant_def
      AddTenant_def SetCurrent_def Save_FsOk Let_def lookupAPI_def lookupContext_def
      encodeConfig_def encodeAPI_def encodeContext_def)

text \<open>
  Claim C3, amended. On a store that satisfies the invariant, \<^verbatim>\<open>AddAPI\<close> preserves it;
  \<^verbatim>\<open>AddTenant\<close> preserves it whenever a selection is set, and on a store with no
  selection when the API name and the tenant key it is given are both empty or both
  non-empty; \<^verbatim>\<open>SetCurrent\<close> preserves it when the API name and the tenant key it is given
  are both empty or both non-empty; \<^verbatim>\<open>RemoveAPI\<close> preserves it unless the API removed is
  the one a set selection names, and \<^verbatim>\<open>RemoveTenant\<close> unless the pair removed is the one a
  set selection names. Removing the selected API or tenant leaves the selection dangling,
  for \<^verbatim>\<open>GetCurrent\<close> to report.
\<close>

theorem selection_invariant_amended:
  assumes "selectionOK (cfg st)"
  shows "selectionOK (cfg (snd (AddAPI fs name url st))) \<and>
         ((Current_API (cfg st) = '''' \<and> Current_Tenant (cfg st) = '''' \<longrightarrow>
             (api = '''') = (tn = '''')) \<longrightarrow>
            selectionOK (cfg (snd (AddTenant fs tn api tenant oidcCfg st)))) \<and>
         ((api = '''') = (tn = '''') \<longrightarrow> selectionOK (cfg (snd (SetCurrent fs api tn st)))) \<and>
         ((Current_API (cfg st) \<noteq> '''' \<longrightarrow> name \<noteq> Current_API (cfg st)) \<longrightarrow>
            selectionOK (cfg (snd (RemoveAPI fs name st)))) \<and>
         ((Current_API (cfg st) \<noteq> '''' \<longrightarrow>
             \<not> (api = Current_API (cfg st) \<and> tn = Current_Tenant (cfg st))) \<longrightarrow>
            selectionOK (cfg (snd (RemoveTenant fs tn api st))))"
proof (intro conjI impI)
  show "selectionOK (cfg (snd (AddAPI fs name url st)))"
    using assms by (rule selectionOK_AddAPI)
  show "selectionOK (cfg (snd (AddTenant fs tn api tenant oidcCfg st)))"
    if "Current_API (cfg st) = '''' \<and> Current_Tenant (cfg st) = '''' \<longrightarrow> (api = '''') = (tn = '''')"
    using assms that by (rule selectionOK_AddTenant)
  show "selectionOK (cfg (snd (SetCurrent fs api tn st)))" if "(api = '''') = (tn = '''')"
    using assms that by (rule selectionOK_SetCurrent)
  show "selectionOK (cfg (snd (RemoveAPI fs name st)))"
    if "Current_API (cfg st) \<noteq> '''' \<longrightarrow> name \<noteq> Current_API (cfg st)"
    using assms that by (rule selectionOK_RemoveAPI)
  show "selectionOK (cfg (snd (RemoveTenant fs tn api st)))"
    if "Current_API (cfg st) \<noteq> '''' \<longrightarrow> \<not> (api = Current_API (cfg st) \<and> tn = Current_Tenant (cfg st))"
    using assms that by (rule selectionOK_RemoveTenant)
qed

theorem selection_invariant_amended_witness:
  "selectionOK (cfg stateTwo) \<and>
   Current_API (cfg stateTwo) = ''a'' \<and> Current_Tenant (cfg stateTwo) = ''t'' \<and>
   fst (AddAPI FsOk ''c'' ''https://c.example'' stateTwo) = None \<and>
   selectionOK (cfg (snd (AddAPI FsOk ''c'' ''https://c.example'' stateTwo))) \<and>
   fst (AddTenant FsOk ''t3'' ''a'' ''T3'' None stateTwo) = None \<and>
   selectionOK (cfg (snd (AddTenant FsOk ''t3'' ''a'' ''T3'' None stateTwo))) \<and>
   fst (SetCurrent FsOk ''b'' ''u'' stateTwo) = None \<and>
   Current_API (cfg (snd (SetCurrent FsOk ''b'' ''u'' stateTwo))) = ''b'' \<and>
   Current_Tenant (cfg (snd (SetCurrent FsOk ''b'' ''u'' stateTwo))) = ''u'' \<and>
   selectionOK (cfg (snd (SetCurrent FsOk ''b'' ''u'' stateTwo))) \<and>
   fst (RemoveAPI FsOk ''b'' stateTwo) = None \<and>
   lookupAPI (cfg (snd (RemoveAPI FsOk ''b'' stateTwo))) ''b'' = None \<and>
   selectionOK (cfg (snd (RemoveAPI FsOk ''b'' stateTwo))) \<and>
   fst (RemoveTenant FsOk ''t2'' ''a'' stateTwo) = None \<and>
   map_option (\<lambda>a. lookupContext a ''t2'')
     (lookupAPI (cfg (snd (RemoveTenant FsOk ''t2'' ''a'' stateTwo))) ''a'') = Some None \<and>
   selectionOK (cfg (snd (RemoveTenant FsOk ''t2'' ''a'' stateTwo))) \<and>
   selectionOK (cfg stateA) \<and>
   Current_API (cfg stateA) = '''' \<and> Current_Tenant (cfg stateA) = '''' \<and>
   fst (AddTenant FsOk ''t'' ''a'' ''T'' None stateA) = None \<and>
   Current_API (cfg (snd (AddTenant FsOk ''t'' ''a'' ''T'' None stateA))) = ''a'' \<and>
   Current_Tenant (cfg (snd (AddTenant FsOk ''t'' ''a'' ''T'' None stateA))) = ''t'' \<and>
   selectionOK (cfg (snd (AddTenant FsOk ''t'' ''a'' ''T'' None stateA)))"
proof -
  note t1 = selection_invariant_amended [OF stateTwo_ok, where fs = FsOk and name = "''c''"
      and url = "''https://c.example''" and api = "''a''" and tn = "''t3''" and tenant = "''T3''"
      and oidcCfg = None]
  note t2 = selection_invariant_amended [OF stateTwo_ok, where fs = FsOk and name = "''b''"
      and api = "''b''" and tn = "''u''"]
  note t3 = selection_invariant_amended [OF stateTwo_ok, where fs = FsOk and api = "''a''"
      and tn = "''t2''"]
  note t4 = selection_invariant_amended [OF stateA_ok, where fs = FsOk and api = "''a''"
      and tn = "''t''" and tenant = "''T''" and oidcCfg = None]
  have cur: "Current_API (cfg stateTwo) = ''a''" "Current_Tenant (cfg stateTwo) = ''t''"
    by (simp_all add: stateTwo_cfg)
  have curA: "Current_API (cfg stateA) = ''''" "Current_Tenant (cfg stateA) = ''''"
    by (simp_all add: stateA_cfg)
  have s1: "fst (AddAPI FsOk ''c'' ''https://c.example'' stateTwo) = None"
    by (simp add: AddAPI_def stateTwo_cfg Save_FsOk Let_def)
  have s2: "fst (AddTenant FsOk ''t3'' ''a'' ''T3'' None stateTwo) = None"
    by (simp add: AddTenant_def stateTwo_cfg Save_FsOk Let_def)
  have s3: "fst (SetCurrent FsOk ''b'' ''u'' stateTwo) = None"
      "Current_API (cfg (snd (SetCurrent FsOk ''b'' ''u'' stateTwo))) = ''b''"
      "Current_Tenant (cfg (snd (SetCurrent FsOk ''b'' ''u'' stateTwo))) = ''u''"
    by (simp_all add: SetCurrent_def stateTwo_cfg Save_FsOk Let_def lookupAPI_def lookupContext_def)
  have s4: "fst (RemoveAPI FsOk ''b'' stateTwo) = None"
      "lookupAPI (cfg (snd (RemoveAPI FsOk ''b'' stateTwo))) ''b'' = None"
    by (simp_all add: RemoveAPI_def stateTwo_cfg Save_FsOk Let_def lookupAPI_def)
  have s5: "fst (RemoveTenant FsOk ''t2'' ''a'' stateTwo) = None"
      "map_option (\<lambda>a. lookupContext a ''t2'')
         (lookupAPI (cfg (snd (RemoveTenant FsOk ''t2'' ''a'' stateTwo))) ''a'') = Some None"
    by (simp_all add: RemoveTenant_def stateTwo_cfg Save_FsOk Let_def lookupAPI_def lookupContext_def)
  have s6: "fst (AddTenant FsOk ''t'' ''a'' ''T'' None stateA) = None"
      "Current_API (cfg (snd (AddTenant FsOk ''t'' ''a'' ''T'' None stateA))) = ''a''"
      "Current_Tenant (cfg (snd (AddTenant FsOk ''t'' ''a'' ''T'' None stateA))) = ''t''"
    by (simp_all add: AddTenant_def stateA_cfg Save_FsOk Let_def)
  have r1: "selectionOK (cfg (snd (AddAPI FsOk ''c'' ''https://c.example'' stateTwo)))"
    using t1 by blast
  have r2: "selectionOK (cfg (snd (AddTenant FsOk ''t3'' ''a'' ''T3'' None stateTwo)))"
    using t1 cur by simp
  have r3: "selectionOK (cfg (snd (SetCurrent FsOk ''b'' ''u'' stateTwo)))"
    using t2 by simp
  have r4: "selectionOK (cfg (snd (RemoveAPI FsOk ''b'' stateTwo)))"
    using t2 cur by simp
  have r5: "selectionOK (cfg (snd (RemoveTenant FsOk ''t2'' ''a'' stateTwo)))"
    using t3 cur by simp
  have r6: "selectionOK (cfg (snd (AddTenant FsOk ''t'' ''a'' ''T'' None stateA)))"
    using t4 by simp
  show ?thesis
    using stateTwo_ok stateA_ok cur curA s1 s2 s3 s4 s5 s6 r1 r2 r3 r4 r5 r6 by simp
qed

subsection \<open>The stores after a login\<close>

lemma stateLogin_heap: "heap stateLogin 0 = loginCredential"
  by (simp add: stateLogin_def stateA_cfg AddTenant_def Let_def)

lemma stateLogin_calls: "calls stateLogin = []"
  by (simp add: stateLogin_def stateA_def AddTenant_def AddAPI_def freshState_def zeroConfig_def Let_def)

lemma GetCurrent_stateLogin: "GetCurrent (cfg stateLogin) = Inr \<lparr>Tenant = ''t'', OIDC = Some 0\<rparr>"
  by (simp add: stateLogin_cfg GetCurrent_def lookupAPI_def lookupContext_def)

lemma GetCurrent_stateAT: "GetCurrent (cfg stateAT) = Inr \<lparr>Tenant = ''T'', OIDC = None\<rparr>"
  by (simp add: stateAT_cfg GetCurrent_def lookupAPI_def lookupContext_def)

lemma loginContext_OIDC: "OIDC \<lparr>Tenant = ''t'', OIDC = Some 0\<rparr> = Some 0"
  by simp

subsection \<open>Anonymous contexts\<close>

text \<open>
  Claim C5, as stated, fails: \<^verbatim>\<open>updateOIDCToken\<close> has no check for an absent credential.
  On a store whose selection resolves to a context with \<^verbatim>\<open>OIDC == nil\<close>, its line 419,
  \<^verbatim>\<open>tkn.AccessToken = cctx.OIDC.AccessToken\<close>, dereferences the \<^verbatim>\<open>nil\<close> pointer: the
  call panics instead of returning success.
\<close>

theorem updateOIDCToken_anonymous_counterexample:
  "GetCurrent (cfg stateAT) = Inr \<lparr>Tenant = ''T'', OIDC = None\<rparr> \<and>
   updateOIDCToken providerUp stateAT = (Panics, stateAT)"
  by (simp add: GetCurrent_stateAT updateOIDCToken_def)

text \<open>
  Claim C5, amended. The check for an absent credential is the one \<^verbatim>\<open>Client\<close> makes
  (\<^verbatim>\<open>if cctx.OIDC != nil\<close>, line 452) before it calls \<^verbatim>\<open>updateOIDCToken\<close>, its only
  caller: on a store whose selection resolves to a context with no credential,
  \<^verbatim>\<open>Client\<close> returns the default HTTP client and leaves the state as it was, so no
  provider call is made, nothing is modified or saved, and nothing is dereferenced.
\<close>

theorem Client_anonymous:
  assumes "GetCurrent (cfg st) = Inr cctx" and "OIDC cctx = None"
  shows "Client ev st = (Returns (Inr DefaultClient), st)"
  using assms by (simp add: Client_def)

theorem Client_anonymous_witness:
  "GetCurrent (cfg stateAT) = Inr \<lparr>Tenant = ''T'', OIDC = None\<rparr> \<and>
   OIDC \<lparr>Tenant = ''T'', OIDC = None\<rparr> = None \<and>
   Client providerUp stateAT = (Returns (Inr DefaultClient), stateAT)"
  using GetCurrent_stateAT Client_anonymous [OF GetCurrent_stateAT, of providerUp]
  by simp

subsection \<open>What \<^verbatim>\<open>GetCurrent\<close> hands out\<close>

lemma assignToken_shared:
  assumes "GetCurrent (cfg st) = Inr cctx" and "OIDC cctx = Some p"
  shows "assignToken cctx tkn st =
           Some (st\<lparr>heap := (heap st)(p := (heap st p)\<lparr>AccessToken := tk_AccessToken tkn,
                   RefreshToken := tk_RefreshToken tkn, Expiry := tk_Expiry tkn\<rparr>)\<rparr>)"
  using assms by (simp add: assignToken_def)

text \<open>
  Claim C4, as stated, fails: the \<^verbatim>\<open>Context\<close> that \<^verbatim>\<open>GetCurrent\<close> returns is a copy of
  the struct, but its \<^verbatim>\<open>OIDC\<close> field is the same pointer as the stored one. After the
  login, writing the three token fields through the returned value, with no write-back
  and no save, changes the credential the store itself resolves to.
\<close>

theorem GetCurrent_snapshot_counterexample:
  "GetCurrent (cfg stateLogin) = Inr \<lparr>Tenant = ''t'', OIDC = Some 0\<rparr> \<and>
   currentCredential stateLogin = Some loginCredential \<and>
   AccessToken loginCredential = ''access0'' \<and>
   assignToken \<lparr>Tenant = ''t'', OIDC = Some 0\<rparr> freshToken stateLogin =
     Some (stateLogin\<lparr>heap := (heap stateLogin)(0 := loginCredential\<lparr>AccessToken := ''access1'',
             RefreshToken := ''refresh1'', Expiry := 100 * second + 2 * hour\<rparr>)\<rparr>) \<and>
   currentCredential
     (stateLogin\<lparr>heap := (heap stateLogin)(0 := loginCredential\<lparr>AccessToken := ''access1'',
             RefreshToken := ''refresh1'', Expiry := 100 * second + 2 * hour\<rparr>)\<rparr>) =
     Some (loginCredential\<lparr>AccessToken := ''access1'', RefreshToken := ''refresh1'',
             Expiry := 100 * second + 2 * hour\<rparr>) \<and>
   currentCredential
     (stateLogin\<lparr>heap := (heap stateLogin)(0 := loginCredential\<lparr>AccessToken := ''access1'',
             RefreshToken := ''refresh1'', Expiry := 100 * second + 2 * hour\<rparr>)\<rparr>) \<noteq>
     currentCredential stateLogin"
  by (simp add: GetCurrent_stateLogin currentCredential_def stateLogin_heap assignToken_def
      freshToken_def loginCredential_def)

text \<open>
  Claim C4, amended. For every store whose selection resolves to a context with a
  credential, the value \<^verbatim>\<open>GetCurrent\<close> returns shares that credential with the store:
  assigning the access token, refresh token and expiry through the returned value (lines
  437 to 439) leaves the \<^verbatim>\<open>Config\<close> of the store (its maps, its contexts and their
  pointers), the file and every other credential as they were, and changes the store's own
  in-memory credential at once, before any write-back; only the persisted document waits
  for the next save.
\<close>

theorem GetCurrent_shares_credential:
  assumes "GetCurrent (cfg st) = Inr cctx" and "OIDC cctx = Some p"
  shows "\<exists>st'. assignToken cctx tkn st = Some st' \<and>
           cfg st' = cfg st \<and> disk st' = disk st \<and> calls st' = calls st \<and>
           GetCurrent (cfg st') = Inr cctx \<and>
           currentCredential st = Some (heap st p) \<and>
           currentCredential st' =
             Some ((heap st p)\<lparr>AccessToken := tk_AccessToken tkn,
                     RefreshToken := tk_RefreshToken tkn, Expiry := tk_Expiry tkn\<rparr>) \<and>
           (\<forall>q. q \<noteq> p \<longrightarrow> heap st' q = heap st q)"
  using assms by (simp add: assignToken_def currentCredential_def)

theorem GetCurrent_shares_credential_witness:
  "GetCurrent (cfg stateLogin) = Inr \<lparr>Tenant = ''t'', OIDC = Some 0\<rparr> \<and>
   OIDC \<lparr>Tenant = ''t'', OIDC = Some 0\<rparr> = Some 0 \<and>
   (\<exists>st'. assignToken \<lparr>Tenant = ''t'', OIDC = Some 0\<rparr> freshToken stateLogin = Some st' \<and>
      cfg st' = cfg stateLogin \<and> disk st' = disk stateLogin \<and>
      map_option AccessToken (currentCredential stateLogin) = Some ''access0'' \<and>
      map_option AccessToken (currentCredential st') = Some ''access1'')"
proof -
  have p: "OIDC \<lparr>Tenant = ''t'', OIDC = Some 0\<rparr> = Some 0" by simp
  show ?thesis
    using GetCurrent_stateLogin p
      GetCurrent_shares_credential [OF GetCurrent_stateLogin p, of freshToken]
    by (auto simp add: stateLogin_heap loginCredential_def freshToken_def)
qed

subsection \<open>Token validity and refresh\<close>

lemma clientCredentialsConfig_state:
  "snd (clientCredentialsConfig ev oc st) = st\<lparr>calls := calls st @ [NewProvider (IssuerURL oc)]\<rparr>"
  by (simp add: clientCredentialsConfig_def Let_def split: sum.splits)

lemma clientCredentialsConfig_result:
  "fst (clientCredentialsConfig ev oc st) =
     (case newProvider ev (calls st) (IssuerURL oc) of
        Inl e \<Rightarrow> Inl (ConstructingProvider e)
      | Inr tokenURL \<Rightarrow>
          Inr \<lparr>cc_ClientID = ClientID oc, cc_ClientSecret = ClientSecret oc,
                cc_TokenURL = tokenURL, cc_Scopes = [''openid'', ''offline_access''],
                cc_EndpointParams =
                  (if Audience oc \<noteq> '''' then [(''audience'', [Audience oc])] else [])\<rparr>)"
  by (simp add: clientCredentialsConfig_def Let_def split: sum.splits)

lemma clientCredentialsConfig_callsD:
  "clientCredentialsConfig ev oc s = (r, s') \<Longrightarrow> calls s' = calls s @ [NewProvider (IssuerURL oc)]"
  using clientCredentialsConfig_state [of ev oc s] by simp

lemma Save_callsD: "Save fs s = (r, s') \<Longrightarrow> calls s' = calls s"
  using Save_calls [of fs s] by simp

lemma storeCurrent_same:
  assumes "GetCurrent c = Inr cctx"
  shows "storeCurrent cctx c = Some c"
  using assms
  by (auto simp add: GetCurrent_def storeCurrent_def lookupAPI_def lookupContext_def
      AList.update_triv split: option.splits if_splits)

lemma updateOIDCToken_valid:
  assumes "GetCurrent (cfg st) = Inr cctx" and "OIDC cctx = Some p"
    and "AccessToken (heap st p) \<noteq> ''''" and "now ev + expiryDelta ev < Expiry (heap st p)"
  shows "updateOIDCToken ev st = (Returns None, st)"
  using assms by (simp add: updateOIDCToken_def Valid_def)

lemma updateOIDCToken_invalid:
  assumes g: "GetCurrent (cfg st) = Inr cctx" and p: "OIDC cctx = Some p"
    and inv: "AccessToken (heap st p) = '''' \<or> Expiry (heap st p) \<le> now ev + expiryDelta ev"
  shows "updateOIDCToken ev st =
     (case clientCredentialsConfig ev (heap st p) st of
        (Inl e, st1) \<Rightarrow> (Returns (Some (CreatingCredentialsConfig e)), st1)
      | (Inr ccc, st1) \<Rightarrow>
          (case ccc_Token ev ccc st1 of
             (Inl e, st2) \<Rightarrow> (Returns (Some (FetchingToken e)), st2)
           | (Inr tkn2, st2) \<Rightarrow>
               (case Save (fsAnswer ev)
                  (st2\<lparr>heap := (heap st2)(p := (heap st2 p)\<lparr>AccessToken := tk_AccessToken tkn2,
                        RefreshToken := tk_RefreshToken tkn2, Expiry := tk_Expiry tkn2\<rparr>)\<rparr>) of
                  (r, st5) \<Rightarrow> (Returns r, st5))))"
proof -
  have nv: "\<not> Valid (now ev) (expiryDelta ev)
      \<lparr>tk_AccessToken = AccessToken (heap st p), tk_RefreshToken = RefreshToken (heap st p),
       tk_Expiry = Expiry (heap st p)\<rparr>"
    using inv by (auto simp add: Valid_def)
  have c: "\<And>s. cfg s = cfg st \<Longrightarrow> storeCurrent cctx (cfg s) = Some (cfg s)"
    using g by (simp add: storeCurrent_same)
  show ?thesis
    using g p nv
    apply (simp add: updateOIDCToken_def)
    apply (simp add: clientCredentialsConfig_def ccc_Token_def assignToken_def Let_def c
        split: sum.splits prod.splits)
    done
qed

lemma updateOIDCToken_invalid_calls:
  assumes g: "GetCurrent (cfg st) = Inr cctx" and p: "OIDC cctx = Some p"
    and inv: "AccessToken (heap st p) = '''' \<or> Expiry (heap st p) \<le> now ev + expiryDelta ev"
  shows "calls (snd (updateOIDCToken ev st)) =
           calls st @ NewProvider (IssuerURL (heap st p)) #
             (case fst (clientCredentialsConfig ev (heap st p) st) of
                Inl e \<Rightarrow> [] | Inr ccc \<Rightarrow> [TokenRequest ccc])"
  unfolding updateOIDCToken_invalid [OF g p inv]
  by (cases "clientCredentialsConfig ev (heap st p) st")
     (use clientCredentialsConfig_state [of ev "heap st p" st] in
      \<open>auto simp add: ccc_Token_def dest: Save_callsD split: sum.splits prod.splits\<close>)

lemma updateOIDCToken_returns:
  assumes g: "GetCurrent (cfg st) = Inr cctx" and p: "OIDC cctx = Some p"
  shows "fst (updateOIDCToken ev st) \<noteq> Panics"
proof (cases "AccessToken (heap st p) \<noteq> '''' \<and> now ev + expiryDelta ev < Expiry (heap st p)")
  case True
  then show ?thesis using updateOIDCToken_valid [OF g p] by simp
next
  case False
  then have inv: "AccessToken (heap st p) = '''' \<or> Expiry (heap st p) \<le> now ev + expiryDelta ev"
    by auto
  show ?thesis
    unfolding updateOIDCToken_invalid [OF g p inv]
    by (simp split: sum.splits prod.splits)
qed

text \<open>
  Claim C6. On a store whose current context has a credential: if the stored access token
  is non-empty and its expiry lies beyond the clock by more than the margin,
  \<^verbatim>\<open>updateOIDCToken\<close> returns success and leaves the state as it was (no provider call, no
  write); if the token is empty or its expiry is within the margin, \<^verbatim>\<open>updateOIDCToken\<close>
  runs the provider once: one discovery, followed, when discovery succeeds, by one token
  exchange. For a margin of at least a second and less than an hour, an expiry one hour
  ahead is in the first case and an expiry one second ahead in the second.
\<close>

theorem updateOIDCToken_validity:
  assumes g: "GetCurrent (cfg st) = Inr cctx" and p: "OIDC cctx = Some p"
  shows "(AccessToken (heap st p) \<noteq> '''' \<and> now ev + expiryDelta ev < Expiry (heap st p) \<longrightarrow>
            updateOIDCToken ev st = (Returns None, st)) \<and>
         (AccessToken (heap st p) = '''' \<or> Expiry (heap st p) \<le> now ev + expiryDelta ev \<longrightarrow>
            calls (snd (updateOIDCToken ev st)) =
              calls st @ NewProvider (IssuerURL (heap st p)) #
                (case fst (clientCredentialsConfig ev (heap st p) st) of
                   Inl e \<Rightarrow> [] | Inr ccc \<Rightarrow> [TokenRequest ccc])) \<and>
         (AccessToken (heap st p) \<noteq> '''' \<and> Expiry (heap st p) = now ev + hour \<and>
          expiryDelta ev < hour \<longrightarrow>
            updateOIDCToken ev st = (Returns None, st)) \<and>
         (Expiry (heap st p) = now ev + second \<and> second \<le> expiryDelta ev \<longrightarrow>
            calls (snd (updateOIDCToken ev st)) =
              calls st @ NewProvider (IssuerURL (heap st p)) #
                (case fst (clientCredentialsConfig ev (heap st p) st) of
                   Inl e \<Rightarrow> [] | Inr ccc \<Rightarrow> [TokenRequest ccc]))"
proof (intro conjI impI)
  show "updateOIDCToken ev st = (Returns None, st)"
    if "AccessToken (heap st p) \<noteq> '''' \<and> now ev + expiryDelta ev < Expiry (heap st p)"
    using that updateOIDCToken_valid [OF g p] by simp
  show "updateOIDCToken ev st = (Returns None, st)"
    if "AccessToken (heap st p) \<noteq> '''' \<and> Expiry (heap st p) = now ev + hour \<and> expiryDelta ev < hour"
    using that updateOIDCToken_valid [OF g p] by simp
  show "calls (snd (updateOIDCToken ev st)) =
              calls st @ NewProvider (IssuerURL (heap st p)) #
                (case fst (clientCredentialsConfig ev (heap st p) st) of
                   Inl e \<Rightarrow> [] | Inr ccc \<Rightarrow> [TokenRequest ccc])"
    if "AccessToken (heap st p) = '''' \<or> Expiry (heap st p) \<le> now ev + expiryDelta ev"
    using that by (rule updateOIDCToken_invalid_calls [OF g p])
  show "calls (snd (updateOIDCToken ev st)) =
              calls st @ NewProvider (IssuerURL (heap st p)) #
                (case fst (clientCredentialsConfig ev (heap st p) st) of
                   Inl e \<Rightarrow> [] | Inr ccc \<Rightarrow> [TokenRequest ccc])"
    if "Expiry (heap st p) = now ev + second \<and> second \<le> expiryDelta ev"
  proof -
    have "AccessToken (heap st p) = '''' \<or> Expiry (heap st p) \<le> now ev + expiryDelta ev"
      using that by simp
    then show ?thesis by (rule updateOIDCToken_invalid_calls [OF g p])
  qed
qed

theorem updateOIDCToken_validity_witness:
  "GetCurrent (cfg stateLogin) = Inr \<lparr>Tenant = ''t'', OIDC = Some 0\<rparr> \<and>
   AccessToken (heap stateLogin 0) \<noteq> '''' \<and>
   Expiry (heap stateLogin 0) = now providerUp + hour \<and> expiryDelta providerUp < hour \<and>
   updateOIDCToken providerUp stateLogin = (Returns None, stateLogin) \<and>
   Expiry (heap stateLogin 0) = now (providerUp\<lparr>now := 99 * second + hour\<rparr>) + second \<and>
   second \<le> expiryDelta (providerUp\<lparr>now := 99 * second + hour\<rparr>) \<and>
   calls (snd (updateOIDCToken (providerUp\<lparr>now := 99 * second + hour\<rparr>) stateLogin)) =
     [NewProvider ''https://issuer.example'',
      TokenRequest \<lparr>cc_ClientID = ''id'', cc_ClientSecret = ''secret'',
                    cc_TokenURL = ''https://issuer.example/token'',
                    cc_Scopes = [''openid'', ''offline_access''],
                    cc_EndpointParams = [(''audience'', [''aud''])]\<rparr>]"
proof -
  note a = updateOIDCToken_validity [OF GetCurrent_stateLogin loginContext_OIDC, of providerUp]
  note b = updateOIDCToken_validity [OF GetCurrent_stateLogin loginContext_OIDC, of "providerUp\<lparr>now := 99 * second + hour\<rparr>"]
  have h: "heap stateLogin 0 = loginCredential" by (rule stateLogin_heap)
  have 1: "AccessToken (heap stateLogin 0) \<noteq> ''''"
    by (simp add: h loginCredential_def)
  have 2: "Expiry (heap stateLogin 0) = now providerUp + hour \<and> expiryDelta providerUp < hour"
    by (simp add: h loginCredential_def providerUp_def hour_def second_def)
  have 3: "Expiry (heap stateLogin 0) = now (providerUp\<lparr>now := 99 * second + hour\<rparr>) + second \<and>
       second \<le> expiryDelta (providerUp\<lparr>now := 99 * second + hour\<rparr>)"
    by (simp add: h loginCredential_def providerUp_def hour_def second_def)
  have 4: "updateOIDCToken providerUp stateLogin = (Returns None, stateLogin)"
    using a 1 2 by blast
  have 5: "calls (snd (updateOIDCToken (providerUp\<lparr>now := 99 * second + hour\<rparr>) stateLogin)) =
      calls stateLogin @ NewProvider (IssuerURL (heap stateLogin 0)) #
        (case fst (clientCredentialsConfig (providerUp\<lparr>now := 99 * second + hour\<rparr>) (heap stateLogin 0) stateLogin) of
           Inl e \<Rightarrow> [] | Inr ccc \<Rightarrow> [TokenRequest ccc])"
    using b 3 by blast
  have 6: "calls (snd (updateOIDCToken (providerUp\<lparr>now := 99 * second + hour\<rparr>) stateLogin)) =
     [NewProvider ''https://issuer.example'',
      TokenRequest \<lparr>cc_ClientID = ''id'', cc_ClientSecret = ''secret'',
                    cc_TokenURL = ''https://issuer.example/token'',
                    cc_Scopes = [''openid'', ''offline_access''],
                    cc_EndpointParams = [(''audience'', [''aud''])]\<rparr>]"
    unfolding 5
    by (simp add: h stateLogin_calls clientCredentialsConfig_result loginCredential_def providerUp_def)
  show ?thesis
    using GetCurrent_stateLogin 1 2 3 4 6 by blast
qed

subsection \<open>Discovery on every \<^verbatim>\<open>Client\<close> call\<close>

lemma Client_credentialed:
  assumes g: "GetCurrent (cfg st) = Inr cctx" and p: "OIDC cctx = Some p"
  shows "Client ev st =
     (case updateOIDCToken ev st of
        (Panics, st1) \<Rightarrow> (Panics, st1)
      | (Returns (Some e), st1) \<Rightarrow> (Returns (Inl e), st1)
      | (Returns None, st1) \<Rightarrow>
          (case clientCredentialsConfig ev (heap st1 p) st1 of
             (Inl e, st2) \<Rightarrow> (Returns (Inl (CreatingCredentialsConfig e)), st2)
           | (Inr ccc, st2) \<Rightarrow> (Returns (Inr (OAuth2Client ccc)), st2)))"
  using g p by (simp add: Client_def)

lemma Client_calls_extend:
  assumes g: "GetCurrent (cfg st) = Inr cctx" and p: "OIDC cctx = Some p"
  shows "\<exists>more. calls (snd (Client ev st)) = calls (snd (updateOIDCToken ev st)) @ more"
  unfolding Client_credentialed [OF g p]
  by (cases "updateOIDCToken ev st")
     (auto dest: clientCredentialsConfig_callsD
        split: outcome.splits option.splits sum.splits prod.splits)

lemma Client_valid_calls:
  assumes g: "GetCurrent (cfg st) = Inr cctx" and p: "OIDC cctx = Some p"
    and v: "AccessToken (heap st p) \<noteq> '''' \<and> now ev + expiryDelta ev < Expiry (heap st p)"
  shows "calls (snd (Client ev st)) = calls st @ [NewProvider (IssuerURL (heap st p))]"
proof -
  have u: "updateOIDCToken ev st = (Returns None, st)"
    using v updateOIDCToken_valid [OF g p] by simp
  show ?thesis
    unfolding Client_credentialed [OF g p] u
    using clientCredentialsConfig_state [of ev "heap st p" st]
    by (cases "clientCredentialsConfig ev (heap st p) st") (auto split: sum.splits)
qed

lemma Client_returns:
  assumes g: "GetCurrent (cfg st) = Inr cctx" and p: "OIDC cctx = Some p"
  shows "fst (Client ev st) \<noteq> Panics"
  unfolding Client_credentialed [OF g p]
  using updateOIDCToken_returns [OF g p, of ev]
  by (cases "updateOIDCToken ev st") (auto split: outcome.splits option.splits sum.splits prod.splits)

text \<open>
  Claim C10. On a store whose current context has a credential, every call of
  \<^verbatim>\<open>Client\<close> runs discovery on the issuer URL of that credential at least once: the
  first provider call it adds to the log is a discovery. When the stored token is valid,
  \<^verbatim>\<open>updateOIDCToken\<close> does nothing and \<^verbatim>\<open>Client\<close> still makes exactly one discovery
  call. \<^verbatim>\<open>Client\<close> does not panic on such a store.
\<close>

theorem Client_always_discovers:
  assumes g: "GetCurrent (cfg st) = Inr cctx" and p: "OIDC cctx = Some p"
  shows "(\<exists>after. calls (snd (Client ev st)) =
            calls st @ NewProvider (IssuerURL (heap st p)) # after) \<and>
         (AccessToken (heap st p) \<noteq> '''' \<and> now ev + expiryDelta ev < Expiry (heap st p) \<longrightarrow>
            updateOIDCToken ev st = (Returns None, st) \<and>
            calls (snd (Client ev st)) = calls st @ [NewProvider (IssuerURL (heap st p))]) \<and>
         fst (Client ev st) \<noteq> Panics"
proof (intro conjI impI)
  show "\<exists>after. calls (snd (Client ev st)) = calls st @ NewProvider (IssuerURL (heap st p)) # after"
  proof (cases "AccessToken (heap st p) \<noteq> '''' \<and> now ev + expiryDelta ev < Expiry (heap st p)")
    case True
    then show ?thesis using Client_valid_calls [OF g p] by simp
  next
    case False
    then have inv: "AccessToken (heap st p) = '''' \<or> Expiry (heap st p) \<le> now ev + expiryDelta ev"
      by auto
    obtain more where m: "calls (snd (Client ev st)) = calls (snd (updateOIDCToken ev st)) @ more"
      using Client_calls_extend [OF g p] by blast
    show ?thesis
      unfolding m updateOIDCToken_invalid_calls [OF g p inv] by simp
  qed
  show "updateOIDCToken ev st = (Returns None, st)"
    if "AccessToken (heap st p) \<noteq> '''' \<and> now ev + expiryDelta ev < Expiry (heap st p)"
    using that updateOIDCToken_valid [OF g p] by simp
  show "calls (snd (Client ev st)) = calls st @ [NewProvider (IssuerURL (heap st p))]"
    if "AccessToken (heap st p) \<noteq> '''' \<and> now ev + expiryDelta ev < Expiry (heap st p)"
    using that by (rule Client_valid_calls [OF g p])
  show "fst (Client ev st) \<noteq> Panics"
    by (rule Client_returns [OF g p])
qed

theorem Client_always_discovers_witness:
  "GetCurrent (cfg stateLogin) = Inr \<lparr>Tenant = ''t'', OIDC = Some 0\<rparr> \<and>
   AccessToken (heap stateLogin 0) \<noteq> '''' \<and>
   now providerUp + expiryDelta providerUp < Expiry (heap stateLogin 0) \<and>
   updateOIDCToken providerUp stateLogin = (Returns None, stateLogin) \<and>
   calls (snd (Client providerUp stateLogin)) = [NewProvider ''https://issuer.example'']"
proof -
  note a = Client_always_discovers [OF GetCurrent_stateLogin loginContext_OIDC, of providerUp]
  have h: "heap stateLogin 0 = loginCredential" by (rule stateLogin_heap)
  have 1: "AccessToken (heap stateLogin 0) \<noteq> '''' \<and>
       now providerUp + expiryDelta providerUp < Expiry (heap stateLogin 0)"
    by (simp add: h loginCredential_def providerUp_def hour_def second_def)
  have 2: "updateOIDCToken providerUp stateLogin = (Returns None, stateLogin) \<and>
       calls (snd (Client providerUp stateLogin)) =
         calls stateLogin @ [NewProvider (IssuerURL (heap stateLogin 0))]"
    using a 1 by blast
  have 3: "calls stateLogin @ [NewProvider (IssuerURL (heap stateLogin 0))] =
       [NewProvider ''https://issuer.example'']"
    by (simp add: h stateLogin_calls loginCredential_def)
  show ?thesis
    using GetCurrent_stateLogin 1 2 3 by simp
qed

subsection \<open>A Go map holds a key once\<close>

text \<open>The zero store is well formed and the five mutating operations keep a store so;
  \<^verbatim>\<open>updateOIDCToken\<close> does not change the \<^verbatim>\<open>Config\<close> at all.\<close>

lemma set_update_subset: "e \<in> set (AList.update k v al) \<Longrightarrow> e = (k, v) \<or> e \<in> set al"
  by (induction al) (auto split: if_splits)

lemma set_delete_subset: "e \<in> set (AList.delete k al) \<Longrightarrow> e \<in> set al"
  by (simp add: AList.delete_eq)

lemma wfConfig_zeroConfig: "wfConfig zeroConfig"
  by (simp add: wfConfig_def zeroConfig_def)

lemma wfConfig_update:
  assumes "APIs c = Some al" and "wfConfig c" and "wfAPI a"
  shows "wfConfig (c\<lparr>APIs := Some (AList.update k a al)\<rparr>)"
  using assms
  by (auto simp add: wfConfig_def list_all_iff AList.distinct_update dest!: set_update_subset)

lemma wfConfig_mapOf:
  assumes "APIs c = Some al" and "wfConfig c" and "map_of al k = Some a"
  shows "wfAPI a"
  using assms by (auto simp add: wfConfig_def list_all_iff dest!: map_of_SomeD)

lemma wfConfig_AddAPI: "wfConfig (cfg st) \<Longrightarrow> wfConfig (cfg (snd (AddAPI fs name url st)))"
  by (auto simp add: AddAPI_def Let_def wfConfig_def wfAPI_def list_all_iff AList.distinct_update
      dest!: set_update_subset split: option.splits)

lemma wfConfig_RemoveAPI: "wfConfig (cfg st) \<Longrightarrow> wfConfig (cfg (snd (RemoveAPI fs name st)))"
  by (auto simp add: RemoveAPI_def Let_def wfConfig_def list_all_iff AList.distinct_delete
      dest!: set_delete_subset split: option.splits)

lemma wfConfig_SetCurrent: "wfConfig (cfg st) \<Longrightarrow> wfConfig (cfg (snd (SetCurrent fs api tenant st)))"
  by (auto simp add: SetCurrent_def Let_def wfConfig_def split: option.splits)

lemma wfConfig_AddTenant:
  assumes wf: "wfConfig (cfg st)"
  shows "wfConfig (cfg (snd (AddTenant fs name api tenant oidcCfg st)))"
proof (cases "APIs (cfg st)")
  case None
  then show ?thesis using wf by (simp add: AddTenant_def)
next
  case (Some al)
  show ?thesis
  proof (cases "map_of al api")
    case None
    then show ?thesis using wf Some by (simp add: AddTenant_def)
  next
    case a: (Some a)
    have wa: "wfAPI a" using Some wf a by (rule wfConfig_mapOf)
    have w1: "wfAPI (a\<lparr>Contexts := Some (case Contexts a of None \<Rightarrow> [] | Some xs \<Rightarrow> xs)\<rparr>)"
      using wa by (auto simp add: wfAPI_def split: option.splits)
    have w2: "wfAPI (a\<lparr>Contexts := Some (AList.update name x (case Contexts a of None \<Rightarrow> [] | Some xs \<Rightarrow> xs))\<rparr>)" for x
      using wa by (auto simp add: wfAPI_def AList.distinct_update split: option.splits)
    define al1 where "al1 = (if Contexts a = None
         then AList.update api (a\<lparr>Contexts := Some (case Contexts a of None \<Rightarrow> [] | Some xs \<Rightarrow> xs)\<rparr>) al else al)"
    have wf1: "wfConfig ((cfg st)\<lparr>APIs := Some al1\<rparr>)"
      unfolding al1_def using wfConfig_update [OF Some wf w1, of api] wf Some
      by (auto simp add: wfConfig_def)
    have wf2: "wfConfig ((cfg st)\<lparr>APIs := Some (AList.update api a' al1)\<rparr>)" if "wfAPI a'" for a'
      using wfConfig_update [of "(cfg st)\<lparr>APIs := Some al1\<rparr>" al1 a' api] wf1 that
      by simp
    have wf3: "wfConfig (c\<lparr>Current_API := x, Current_Tenant := y\<rparr>) = wfConfig c" for c x y
      by (simp add: wfConfig_def)
    show ?thesis
      using Some a wf1 wf2 [OF w2] 
      by (simp add: AddTenant_def Let_def al1_def wf3)
  qed
qed

lemma wfConfig_RemoveTenant:
  assumes wf: "wfConfig (cfg st)"
  shows "wfConfig (cfg (snd (RemoveTenant fs name api st)))"
proof (cases "APIs (cfg st)")
  case None
  then show ?thesis using wf by (simp add: RemoveTenant_def)
next
  case (Some al)
  show ?thesis
  proof (cases "map_of al api")
    case None
    then show ?thesis using wf Some by (simp add: RemoveTenant_def)
  next
    case a: (Some a)
    have wa: "wfAPI a" using Some wf a by (rule wfConfig_mapOf)
    have w: "wfAPI (a\<lparr>Contexts := Some (AList.delete name xs)\<rparr>)" if "Contexts a = Some xs" for xs
      using wa that by (simp add: wfAPI_def AList.distinct_delete)
    show ?thesis
      using Some a wf wfConfig_update [OF Some wf w, of _ api]
      by (auto simp add: RemoveTenant_def Let_def split: option.splits)
  qed
qed

lemma wfConfig_stateLogin: "wfConfig (cfg stateLogin)"
  by (simp add: stateLogin_cfg wfConfig_def wfAPI_def)

subsection \<open>Saving, then reading\<close>

lemma update_fresh: "k \<notin> fst ` set al \<Longrightarrow> AList.update k v al = al @ [(k, v)]"
  by (induction al) auto

lemma decodeOIDC_encodeOIDC:
  "encodeOIDC oc = JObject obj \<Longrightarrow> decodeOIDC obj = Some oc"
  by (auto simp add: encodeOIDC_def decodeOIDC_def field_def)

lemma decodeContext_encodeContext:
  "\<exists>x' m'. decodeContext (encodeContext h x) m = Some (x', m') \<and>
     resolveContext (fst m') x' = resolveContext h x \<and> belowContext (snd m') x' \<and>
     snd m \<le> snd m' \<and> (\<forall>q<snd m. fst m' q = fst m q)"
proof (cases "OIDC x")
  case None
  then show ?thesis
    by (simp add: encodeContext_def field_def resolveContext_def belowContext_def)
next
  case (Some p)
  obtain obj where o: "encodeOIDC (h p) = JObject obj"
    by (simp add: encodeOIDC_def)
  have d: "decodeOIDC obj = Some (h p)"
    using o by (rule decodeOIDC_encodeOIDC)
  show ?thesis
    using Some o d
    by (simp add: encodeContext_def field_def resolveContext_def belowContext_def)
qed

lemma decodeEntries_roundtrip:
  fixes dec :: "json \<Rightarrow> mem \<Rightarrow> ('v \<times> mem) option"
    and enc :: "'v \<Rightarrow> json"
    and res :: "(addr \<Rightarrow> OIDCConfig) \<Rightarrow> 'v \<Rightarrow> 'r"
    and tgt :: "'v \<Rightarrow> 'r"
    and bnd :: "addr \<Rightarrow> 'v \<Rightarrow> bool"
  assumes stable: "\<forall>v n h1 h2. bnd n v \<longrightarrow> (\<forall>q<n. h2 q = h1 q) \<longrightarrow> res h2 v = res h1 v"
      and mono: "\<forall>v n n'. bnd n v \<longrightarrow> n \<le> n' \<longrightarrow> bnd n' v"
      and step: "\<forall>k v m. (k, v) \<in> set al \<longrightarrow>
         (\<exists>v' m'. dec (enc v) m = Some (v', m') \<and> res (fst m') v' = tgt v \<and> bnd (snd m') v' \<and>
            snd m \<le> snd m' \<and> (\<forall>q<snd m. fst m' q = fst m q))"
      and dist: "distinct (map fst al)"
      and disj: "fst ` set al \<inter> fst ` set acc = {}"
      and accb: "\<forall>(k, v) \<in> set acc. bnd (snd m) v"
  shows "\<exists>al' m'. decodeEntries dec (map (\<lambda>(k, v). (k, enc v)) al) acc m = Some (acc @ al', m') \<and>
           map (\<lambda>(k, v). (k, res (fst m') v)) (acc @ al') =
             map (\<lambda>(k, v). (k, res (fst m) v)) acc @ map (\<lambda>(k, v). (k, tgt v)) al \<and>
           (\<forall>(k, v) \<in> set (acc @ al'). bnd (snd m') v) \<and>
           snd m \<le> snd m' \<and> (\<forall>q<snd m. fst m' q = fst m q)"
  using step dist disj accb
proof (induction al arbitrary: acc m)
  case Nil
  then show ?case by simp
next
  case (Cons e al)
  obtain k v where e: "e = (k, v)" by (cases e)
  obtain v' m1 where d: "dec (enc v) m = Some (v', m1)" and r: "res (fst m1) v' = tgt v"
    and b: "bnd (snd m1) v'" and le: "snd m \<le> snd m1" and fr: "\<forall>q<snd m. fst m1 q = fst m q"
    using Cons.prems(1) e by (meson list.set_intros(1))
  have kacc: "k \<notin> fst ` set acc"
    using Cons.prems(3) e by auto
  have upd: "AList.update k v' acc = acc @ [(k, v')]"
    using kacc by (rule update_fresh)
  have step': "\<forall>k v m. (k, v) \<in> set al \<longrightarrow>
         (\<exists>v' m'. dec (enc v) m = Some (v', m') \<and> res (fst m') v' = tgt v \<and> bnd (snd m') v' \<and>
            snd m \<le> snd m' \<and> (\<forall>q<snd m. fst m' q = fst m q))"
    using Cons.prems(1) by (meson list.set_intros(2))
  have dist': "distinct (map fst al)"
    using Cons.prems(2) by simp
  have disj': "fst ` set al \<inter> fst ` set (acc @ [(k, v')]) = {}"
    using Cons.prems(2,3) e by auto
  have accb': "\<forall>(k, v) \<in> set (acc @ [(k, v')]). bnd (snd m1) v"
    using Cons.prems(4) b le mono by fastforce
  obtain al' m' where
      1: "decodeEntries dec (map (\<lambda>(k, v). (k, enc v)) al) (acc @ [(k, v')]) m1
            = Some ((acc @ [(k, v')]) @ al', m')"
    and 2: "map (\<lambda>(k, v). (k, res (fst m') v)) ((acc @ [(k, v')]) @ al') =
             map (\<lambda>(k, v). (k, res (fst m1) v)) (acc @ [(k, v')]) @ map (\<lambda>(k, v). (k, tgt v)) al"
    and 3: "\<forall>(k, v) \<in> set ((acc @ [(k, v')]) @ al'). bnd (snd m') v"
    and 4: "snd m1 \<le> snd m'" and 5: "\<forall>q<snd m1. fst m' q = fst m1 q"
    using Cons.IH [OF step' dist' disj' accb'] by blast
  have accres: "map (\<lambda>(k, v). (k, res (fst m1) v)) acc = map (\<lambda>(k, v). (k, res (fst m) v)) acc"
  proof (rule map_cong [OF refl])
    fix e' assume "e' \<in> set acc"
    then have "bnd (snd m) (snd e')"
      using Cons.prems(4) by (auto simp add: case_prod_beta)
    then have "res (fst m1) (snd e') = res (fst m) (snd e')"
      using stable fr by blast
    then show "(case e' of (k, v) \<Rightarrow> (k, res (fst m1) v)) = (case e' of (k, v) \<Rightarrow> (k, res (fst m) v))"
      by (simp add: case_prod_beta)
  qed
  have "decodeEntries dec (map (\<lambda>(k, v). (k, enc v)) (e # al)) acc m = Some (acc @ ((k, v') # al'), m')"
    using d upd 1 e by simp
  moreover have "map (\<lambda>(k, v). (k, res (fst m') v)) (acc @ ((k, v') # al')) =
             map (\<lambda>(k, v). (k, res (fst m) v)) acc @ map (\<lambda>(k, v). (k, tgt v)) (e # al)"
    using 2 accres r e by simp
  moreover have "\<forall>(k, v) \<in> set (acc @ ((k, v') # al')). bnd (snd m') v"
    using 3 by simp
  moreover have "snd m \<le> snd m'" using le 4 by simp
  moreover have "\<forall>q<snd m. fst m' q = fst m q" using fr 5 le by auto
  ultimately show ?case by blast
qed

lemma resolveContext_stable:
  "belowContext n x \<Longrightarrow> (\<forall>q<n. h2 q = h1 q) \<Longrightarrow> resolveContext h2 x = resolveContext h1 x"
  by (auto simp add: belowContext_def resolveContext_def split: option.splits)

lemma belowContext_mono: "belowContext n x \<Longrightarrow> n \<le> n' \<Longrightarrow> belowContext n' x"
  by (auto simp add: belowContext_def split: option.splits)

lemma resolveAPI_stable:
  "belowAPI n a \<Longrightarrow> (\<forall>q<n. h2 q = h1 q) \<Longrightarrow> resolveAPI h2 a = resolveAPI h1 a"
  by (cases "Contexts a")
     (auto simp add: belowAPI_def resolveAPI_def list_all_iff resolveContext_stable)

lemma belowAPI_mono: "belowAPI n a \<Longrightarrow> n \<le> n' \<Longrightarrow> belowAPI n' a"
  by (cases "Contexts a")
     (auto simp add: belowAPI_def list_all_iff intro: belowContext_mono)

lemma decodeAPI_encodeAPI:
  assumes wf: "wfAPI a"
  shows "\<exists>a' m'. decodeAPI (encodeAPI h a) m = Some (a', m') \<and>
     resolveAPI (fst m') a' = resolveAPI h a \<and> belowAPI (snd m') a' \<and>
     snd m \<le> snd m' \<and> (\<forall>q<snd m. fst m' q = fst m q)"
proof (cases "Contexts a")
  case None
  then show ?thesis
    by (simp add: encodeAPI_def field_def resolveAPI_def belowAPI_def)
next
  case (Some xs)
  have dist: "distinct (map fst xs)"
    using wf Some by (simp add: wfAPI_def)
  have step: "\<forall>k v m. (k, v) \<in> set xs \<longrightarrow>
         (\<exists>v' m'. decodeContext (encodeContext h v) m = Some (v', m') \<and>
            resolveContext (fst m') v' = resolveContext h v \<and> belowContext (snd m') v' \<and>
            snd m \<le> snd m' \<and> (\<forall>q<snd m. fst m' q = fst m q))"
    using decodeContext_encodeContext by blast
  have stab: "\<forall>v n h1 h2. belowContext n v \<longrightarrow> (\<forall>q<n. h2 q = h1 q) \<longrightarrow>
      resolveContext h2 v = resolveContext h1 v"
    using resolveContext_stable by blast
  have mono: "\<forall>v n n'. belowContext n v \<longrightarrow> n \<le> n' \<longrightarrow> belowContext n' v"
    using belowContext_mono by blast
  obtain xs' m' where
      1: "decodeEntries decodeContext (map (\<lambda>(k, v). (k, encodeContext h v)) xs) [] m = Some ([] @ xs', m')"
    and 2: "map (\<lambda>(k, v). (k, resolveContext (fst m') v)) ([] @ xs') =
             map (\<lambda>(k, v). (k, resolveContext (fst m) v)) [] @ map (\<lambda>(k, v). (k, resolveContext h v)) xs"
    and 3: "\<forall>(k, v) \<in> set ([] @ xs'). belowContext (snd m') v"
    and 4: "snd m \<le> snd m'" and 5: "\<forall>q<snd m. fst m' q = fst m q"
    using decodeEntries_roundtrip [of belowContext resolveContext xs decodeContext "encodeContext h"
        "resolveContext h" "[]" m, OF stab mono step dist]
    by auto
  have d: "decodeAPI (encodeAPI h a) m = Some (\<lparr>URL = URL a, Contexts = Some xs'\<rparr>, m')"
    using Some 1 by (simp add: encodeAPI_def field_def)
  have r: "resolveAPI (fst m') \<lparr>URL = URL a, Contexts = Some xs'\<rparr> = resolveAPI h a"
    using Some 2 by (simp add: resolveAPI_def)
  have b: "belowAPI (snd m') \<lparr>URL = URL a, Contexts = Some xs'\<rparr>"
    using 3 by (simp add: belowAPI_def list_all_iff)
  show ?thesis
    using d r b 4 5 by blast
qed

lemma decodeConfig_encodeConfig:
  assumes wf: "wfConfig c"
  shows "\<exists>c' m'. decodeConfig (encodeConfig h c) m = Some (c', m') \<and>
     resolveConfig (fst m') c' = resolveConfig h c"
proof (cases "APIs c")
  case None
  then show ?thesis
    by (simp add: encodeConfig_def field_def resolveConfig_def)
next
  case (Some al)
  have dist: "distinct (map fst al)" and wfs: "\<forall>(k, a) \<in> set al. wfAPI a"
    using wf Some by (simp_all add: wfConfig_def list_all_iff)
  have step: "\<forall>k v m. (k, v) \<in> set al \<longrightarrow>
         (\<exists>v' m'. decodeAPI (encodeAPI h v) m = Some (v', m') \<and>
            resolveAPI (fst m') v' = resolveAPI h v \<and> belowAPI (snd m') v' \<and>
            snd m \<le> snd m' \<and> (\<forall>q<snd m. fst m' q = fst m q))"
    using decodeAPI_encodeAPI wfs by blast
  have stab: "\<forall>v n h1 h2. belowAPI n v \<longrightarrow> (\<forall>q<n. h2 q = h1 q) \<longrightarrow>
      resolveAPI h2 v = resolveAPI h1 v"
    using resolveAPI_stable by blast
  have mono: "\<forall>v n n'. belowAPI n v \<longrightarrow> n \<le> n' \<longrightarrow> belowAPI n' v"
    using belowAPI_mono by blast
  obtain al' m' where
      1: "decodeEntries decodeAPI (map (\<lambda>(k, v). (k, encodeAPI h v)) al) [] m = Some ([] @ al', m')"
    and 2: "map (\<lambda>(k, v). (k, resolveAPI (fst m') v)) ([] @ al') =
             map (\<lambda>(k, v). (k, resolveAPI (fst m) v)) [] @ map (\<lambda>(k, v). (k, resolveAPI h v)) al"
    using decodeEntries_roundtrip [of belowAPI resolveAPI al decodeAPI "encodeAPI h"
        "resolveAPI h" "[]" m, OF stab mono step dist]
    by auto
  have d: "decodeConfig (encodeConfig h c) m =
      Some (\<lparr>APIs = Some al', Current_API = Current_API c, Current_Tenant = Current_Tenant c\<rparr>, m')"
    using Some 1 by (simp add: encodeConfig_def field_def)
  have r: "resolveConfig (fst m') \<lparr>APIs = Some al', Current_API = Current_API c,
        Current_Tenant = Current_Tenant c\<rparr> = resolveConfig h c"
    using Some 2 by (simp add: resolveConfig_def)
  show ?thesis
    using d r by blast
qed

lemma Read_after_Save:
  assumes wf: "wfConfig (cfg st)"
  shows "\<exists>c' st2. Read FsOk (snd (Save FsOk st)) = (Inr c', st2) \<and>
           resolveConfig (heap st2) c' = resolveConfig (heap st) (cfg st)"
proof -
  obtain c' m' where d: "decodeConfig (encodeConfig (heap st) (cfg st)) (heap st, nextAddr st) = Some (c', m')"
    and r: "resolveConfig (fst m') c' = resolveConfig (heap st) (cfg st)"
    using decodeConfig_encodeConfig [OF wf] by blast
  show ?thesis
    using d r by (simp add: Read_def Save_FsOk)
qed

lemma map_of_resolved:
  "map_of (map (\<lambda>(k, v). (k, f v)) al) k = map_option f (map_of al k)"
  by (induction al) auto

lemma currentCredential_resolved:
  "currentCredential st = resolvedCurrent (resolveConfig (heap st) (cfg st))"
  by (auto simp add: currentCredential_def resolvedCurrent_def resolveConfig_def GetCurrent_def
      lookupAPI_def lookupContext_def map_of_resolved resolveAPI_def resolveContext_def
      split: option.splits)

lemma resolveConfig_stateLogin:
  "resolveConfig (heap stateLogin) (cfg stateLogin) =
     (Some [(''a'', ''https://a.example'', Some [(''t'', ''t'', Some loginCredential)])], ''a'', ''t'')"
  by (simp add: stateLogin_cfg stateLogin_heap resolveConfig_def resolveAPI_def resolveContext_def)

lemma Read_of_saved:
  assumes wf: "wfConfig (cfg st)" and d: "disk st' = disk (snd (Save FsOk st))"
  shows "\<exists>c' st2. Read FsOk st' = (Inr c', st2) \<and>
           resolveConfig (heap st2) c' = resolveConfig (heap st) (cfg st)"
proof -
  have doc: "disk st' = Document (encodeConfig (heap st) (cfg st))"
    using d by (simp add: Save_FsOk)
  obtain c' m' where dc: "decodeConfig (encodeConfig (heap st) (cfg st)) (heap st', nextAddr st') = Some (c', m')"
    and r: "resolveConfig (fst m') c' = resolveConfig (heap st) (cfg st)"
    using decodeConfig_encodeConfig [OF wf] by blast
  show ?thesis
    using doc dc r by (simp add: Read_def)
qed

lemma reader_disk:
  "disk (freshState\<lparr>disk := disk (snd (Save FsOk stateLogin))\<rparr>) = disk (snd (Save FsOk stateLogin))"
  by simp

lemma Read_concrete:
  "fst (Read FsOk (freshState\<lparr>disk := disk (snd (Save FsOk stateLogin))\<rparr>)) =
     Inr \<lparr>APIs = Some [(''a'', \<lparr>URL = ''https://a.example'',
                            Contexts = Some [(''t'', \<lparr>Tenant = ''t'', OIDC = Some 0\<rparr>)]\<rparr>)],
          Current_API = ''a'', Current_Tenant = ''t''\<rparr>"
  by (simp add: Read_def Save_FsOk freshState_def stateLogin_cfg stateLogin_heap encodeConfig_def
      encodeAPI_def encodeContext_def encodeOIDC_def field_def decodeOIDC_def loginCredential_def)

text \<open>
  Claim C9. For every store, \<^verbatim>\<open>Save\<close> followed by \<^verbatim>\<open>Read\<close> (the file system
  permitting) yields a store structurally equal to the one saved: with every pointer
  followed, the same APIs with the same URLs, the same contexts with the same tenant
  labels and the same credentials in all their seven fields, and the same selection. The
  reader is any process that finds the file the writer left, whatever it holds in memory.
  The maps of the store hold each key once, as Go maps do; instants are kept exactly.
\<close>

theorem Save_Read_roundtrip:
  assumes "wfConfig (cfg st)" and "disk st' = disk (snd (Save FsOk st))"
  shows "fst (Save FsOk st) = None \<and>
         (\<exists>c' st2. Read FsOk st' = (Inr c', st2) \<and>
            resolveConfig (heap st2) c' = resolveConfig (heap st) (cfg st))"
  using Read_of_saved [OF assms] by (simp add: Save_FsOk)

theorem Save_Read_roundtrip_witness:
  "wfConfig (cfg stateLogin) \<and>
   cfg (freshState\<lparr>disk := disk (snd (Save FsOk stateLogin))\<rparr>) = zeroConfig \<and>
   fst (Save FsOk stateLogin) = None \<and>
   (\<exists>c' st2. Read FsOk (freshState\<lparr>disk := disk (snd (Save FsOk stateLogin))\<rparr>) = (Inr c', st2) \<and>
      resolveConfig (heap st2) c' =
        (Some [(''a'', ''https://a.example'', Some [(''t'', ''t'', Some loginCredential)])], ''a'', ''t'')) \<and>
   fst (Read FsOk (freshState\<lparr>disk := disk (snd (Save FsOk stateLogin))\<rparr>)) =
     Inr \<lparr>APIs = Some [(''a'', \<lparr>URL = ''https://a.example'',
                            Contexts = Some [(''t'', \<lparr>Tenant = ''t'', OIDC = Some 0\<rparr>)]\<rparr>)],
          Current_API = ''a'', Current_Tenant = ''t''\<rparr>"
  using wfConfig_stateLogin Save_Read_roundtrip [OF wfConfig_stateLogin reader_disk] Read_concrete
  by (simp add: resolveConfig_stateLogin freshState_def)

subsection \<open>Refresh write-through\<close>

lemma updateOIDCToken_refreshes:
  assumes g: "GetCurrent (cfg st) = Inr cctx" and p: "OIDC cctx = Some p"
    and inv: "AccessToken (heap st p) = '''' \<or> Expiry (heap st p) \<le> now ev + expiryDelta ev"
    and disc: "fst (clientCredentialsConfig ev (heap st p) st) = Inr ccc"
    and exch: "tokenEndpoint ev (calls st @ [NewProvider (IssuerURL (heap st p))]) ccc = Inr tkn"
  shows "updateOIDCToken ev st =
     (Returns (fst (Save (fsAnswer ev)
        (st\<lparr>calls := calls st @ [NewProvider (IssuerURL (heap st p)), TokenRequest ccc],
            heap := (heap st)(p := (heap st p)\<lparr>AccessToken := tk_AccessToken tkn,
                        RefreshToken := tk_RefreshToken tkn, Expiry := tk_Expiry tkn\<rparr>)\<rparr>))),
      snd (Save (fsAnswer ev)
        (st\<lparr>calls := calls st @ [NewProvider (IssuerURL (heap st p)), TokenRequest ccc],
            heap := (heap st)(p := (heap st p)\<lparr>AccessToken := tk_AccessToken tkn,
                        RefreshToken := tk_RefreshToken tkn, Expiry := tk_Expiry tkn\<rparr>)\<rparr>)))"
proof -
  have c: "clientCredentialsConfig ev (heap st p) st =
      (Inr ccc, st\<lparr>calls := calls st @ [NewProvider (IssuerURL (heap st p))]\<rparr>)"
    using disc clientCredentialsConfig_state [of ev "heap st p" st]
    by (cases "clientCredentialsConfig ev (heap st p) st") simp
  show ?thesis
    unfolding updateOIDCToken_invalid [OF g p inv] c
    using exch by (simp add: ccc_Token_def split_beta)
qed

text \<open>
  Claim C7. On a store whose current credential holds an invalid token, when discovery
  succeeds and the exchange answers with a token, \<^verbatim>\<open>updateOIDCToken\<close> overwrites
  the access token, refresh token and expiry of the current credential with exactly the
  values of that token (the other four fields and the \<^verbatim>\<open>Config\<close> stay as they were),
  and, the file system permitting, returns success having written the whole store to the
  file: reading the file back gives a store whose current credential shows the new values.
\<close>

theorem updateOIDCToken_write_through:
  assumes g: "GetCurrent (cfg st) = Inr cctx" and p: "OIDC cctx = Some p"
    and inv: "AccessToken (heap st p) = '''' \<or> Expiry (heap st p) \<le> now ev + expiryDelta ev"
    and disc: "fst (clientCredentialsConfig ev (heap st p) st) = Inr ccc"
    and exch: "tokenEndpoint ev (calls st @ [NewProvider (IssuerURL (heap st p))]) ccc = Inr tkn"
  shows "cfg (snd (updateOIDCToken ev st)) = cfg st \<and>
         currentCredential (snd (updateOIDCToken ev st)) =
           Some ((heap st p)\<lparr>AccessToken := tk_AccessToken tkn,
                   RefreshToken := tk_RefreshToken tkn, Expiry := tk_Expiry tkn\<rparr>) \<and>
         (fsAnswer ev = FsOk \<longrightarrow>
            fst (updateOIDCToken ev st) = Returns None \<and>
            disk (snd (updateOIDCToken ev st)) =
              Document (encodeConfig (heap (snd (updateOIDCToken ev st)))
                                     (cfg (snd (updateOIDCToken ev st)))) \<and>
            (wfConfig (cfg st) \<longrightarrow>
               (\<exists>c' st2. Read FsOk (snd (updateOIDCToken ev st)) = (Inr c', st2) \<and>
                  currentCredential (st2\<lparr>cfg := c'\<rparr>) =
                    Some ((heap st p)\<lparr>AccessToken := tk_AccessToken tkn,
                            RefreshToken := tk_RefreshToken tkn, Expiry := tk_Expiry tkn\<rparr>))))"
proof -
  define stR where "stR = st\<lparr>calls := calls st @ [NewProvider (IssuerURL (heap st p)), TokenRequest ccc],
            heap := (heap st)(p := (heap st p)\<lparr>AccessToken := tk_AccessToken tkn,
                        RefreshToken := tk_RefreshToken tkn, Expiry := tk_Expiry tkn\<rparr>)\<rparr>"
  have u: "updateOIDCToken ev st = (Returns (fst (Save (fsAnswer ev) stR)), snd (Save (fsAnswer ev) stR))"
    unfolding stR_def by (rule updateOIDCToken_refreshes [OF g p inv disc exch])
  have cR: "cfg stR = cfg st" by (simp add: stR_def)
  have hR: "heap stR p = (heap st p)\<lparr>AccessToken := tk_AccessToken tkn,
                   RefreshToken := tk_RefreshToken tkn, Expiry := tk_Expiry tkn\<rparr>"
    by (simp add: stR_def)
  have ccR: "currentCredential stR = Some (heap stR p)"
    using g p cR by (simp add: currentCredential_def)
  have 1: "cfg (snd (updateOIDCToken ev st)) = cfg st"
    unfolding u using cR by simp
  have 2: "currentCredential (snd (updateOIDCToken ev st)) = Some (heap stR p)"
    unfolding u using g p cR by (simp add: currentCredential_def)
  have 3: "fst (updateOIDCToken ev st) = Returns None \<and>
            disk (snd (updateOIDCToken ev st)) =
              Document (encodeConfig (heap (snd (updateOIDCToken ev st)))
                                     (cfg (snd (updateOIDCToken ev st))))" if "fsAnswer ev = FsOk"
    unfolding u using that by (simp add: Save_FsOk)
  have 4: "\<exists>c' st2. Read FsOk (snd (updateOIDCToken ev st)) = (Inr c', st2) \<and>
                  currentCredential (st2\<lparr>cfg := c'\<rparr>) = Some (heap stR p)"
    if f: "fsAnswer ev = FsOk" and wf: "wfConfig (cfg st)"
  proof -
    have wfR: "wfConfig (cfg stR)" using wf cR by simp
    obtain c' st2 where r: "Read FsOk (snd (Save FsOk stR)) = (Inr c', st2)"
      and e: "resolveConfig (heap st2) c' = resolveConfig (heap stR) (cfg stR)"
      using Read_after_Save [OF wfR] by blast
    have "currentCredential (st2\<lparr>cfg := c'\<rparr>) = resolvedCurrent (resolveConfig (heap st2) c')"
      by (simp add: currentCredential_resolved)
    also have "\<dots> = currentCredential stR"
      unfolding e by (simp add: currentCredential_resolved)
    finally have "currentCredential (st2\<lparr>cfg := c'\<rparr>) = Some (heap stR p)"
      using ccR by simp
    then show ?thesis
      unfolding u f using r by simp
  qed
  show ?thesis
    using 1 2 3 4 unfolding hR by blast
qed

theorem updateOIDCToken_write_through_witness:
  "GetCurrent (cfg stateLogin) = Inr \<lparr>Tenant = ''t'', OIDC = Some 0\<rparr> \<and>
   Expiry (heap stateLogin 0) \<le> now providerUpLater + expiryDelta providerUpLater \<and>
   fsAnswer providerUpLater = FsOk \<and> wfConfig (cfg stateLogin) \<and>
   fst (updateOIDCToken providerUpLater stateLogin) = Returns None \<and>
   currentCredential stateLogin = Some loginCredential \<and>
   currentCredential (snd (updateOIDCToken providerUpLater stateLogin)) =
     Some (loginCredential\<lparr>AccessToken := ''access1'', RefreshToken := ''refresh1'',
             Expiry := 100 * second + 2 * hour\<rparr>) \<and>
   (\<exists>c' st2. Read FsOk (snd (updateOIDCToken providerUpLater stateLogin)) = (Inr c', st2) \<and>
      currentCredential (st2\<lparr>cfg := c'\<rparr>) =
        Some (loginCredential\<lparr>AccessToken := ''access1'', RefreshToken := ''refresh1'',
                Expiry := 100 * second + 2 * hour\<rparr>))"
proof -
  have h: "heap stateLogin 0 = loginCredential" by (rule stateLogin_heap)
  have inv: "AccessToken (heap stateLogin 0) = '''' \<or>
      Expiry (heap stateLogin 0) \<le> now providerUpLater + expiryDelta providerUpLater"
    by (simp add: h loginCredential_def providerUpLater_def providerUp_def hour_def second_def)
  have inv': "Expiry (heap stateLogin 0) \<le> now providerUpLater + expiryDelta providerUpLater"
    by (simp add: h loginCredential_def providerUpLater_def providerUp_def hour_def second_def)
  have disc: "fst (clientCredentialsConfig providerUpLater (heap stateLogin 0) stateLogin) =
      Inr \<lparr>cc_ClientID = ''id'', cc_ClientSecret = ''secret'',
           cc_TokenURL = ''https://issuer.example/token'',
           cc_Scopes = [''openid'', ''offline_access''],
           cc_EndpointParams = [(''audience'', [''aud''])]\<rparr>"
    by (simp add: clientCredentialsConfig_result h loginCredential_def providerUpLater_def providerUp_def)
  have exch: "tokenEndpoint providerUpLater
      (calls stateLogin @ [NewProvider (IssuerURL (heap stateLogin 0))])
      \<lparr>cc_ClientID = ''id'', cc_ClientSecret = ''secret'',
           cc_TokenURL = ''https://issuer.example/token'',
           cc_Scopes = [''openid'', ''offline_access''],
           cc_EndpointParams = [(''audience'', [''aud''])]\<rparr> = Inr freshToken"
    by (simp add: providerUpLater_def providerUp_def)
  have f: "fsAnswer providerUpLater = FsOk"
    by (simp add: providerUpLater_def providerUp_def)
  have cc: "currentCredential stateLogin = Some loginCredential"
    by (simp add: currentCredential_def GetCurrent_stateLogin h)
  note t = updateOIDCToken_write_through [OF GetCurrent_stateLogin loginContext_OIDC inv disc exch]
  have n: "(heap stateLogin 0)\<lparr>AccessToken := tk_AccessToken freshToken,
                   RefreshToken := tk_RefreshToken freshToken, Expiry := tk_Expiry freshToken\<rparr> =
      loginCredential\<lparr>AccessToken := ''access1'', RefreshToken := ''refresh1'',
             Expiry := 100 * second + 2 * hour\<rparr>"
    by (simp add: h freshToken_def)
  show ?thesis
    using GetCurrent_stateLogin inv' f wfConfig_stateLogin cc t unfolding n by blast
qed

end
